theory Spec2Isabelle
  imports Main
begin

section \<open>The ChatGPT view provider of the extension (chatgpt-view-provider-zh.ts)\<close>

text \<open>
  The provider class \<open>ChatGptViewProvider\<close> is embedded as a record of its fields and one
  function per method, each taking the provider and returning it updated. Everything the
  provider does to the outside (messages handed to the webview, dialogs of the host, calls
  of the API client, log lines) is appended, in program order, to the field \<open>effects\<close>;
  no method reads that field.
\<close>

subsection \<open>Strings\<close>

text \<open>JavaScript truthiness of an optional string: defined and not empty.\<close>

definition truthy :: "string option \<Rightarrow> bool" where
  "truthy v = (case v of None \<Rightarrow> False | Some t \<Rightarrow> t \<noteq> [])"

text \<open>\<open>String.prototype.startsWith\<close>.\<close>

definition startsWith :: "string \<Rightarrow> string \<Rightarrow> bool" where
  "startsWith t p = (take (length p) t = p)"

text \<open>
  \<open>String.prototype.split\<close> with a string separator: the separator is searched from the
  left, each search starting behind the previous match, and the text between two matches,
  before the first and behind the last one is a piece. \<open>cur\<close> is the piece being read,
  reversed.
\<close>

fun splitOn :: "string \<Rightarrow> string \<Rightarrow> string \<Rightarrow> string list" where
  "splitOn sep cur [] = [rev cur]"
| "splitOn sep cur (c # cs) =
     (if take (length sep) (c # cs) = sep
      then rev cur # splitOn sep [] (drop (length sep - 1) cs)
      else splitOn sep (c # cur) cs)"

definition split_str :: "string \<Rightarrow> string \<Rightarrow> string list" where
  "split_str sep t = (if sep = [] then map (\<lambda>c. [c]) t else splitOn sep [] t)"

text \<open>The triple-backtick fence marker, and carriage return, line feed.\<close>

definition fence :: string where
  "fence = [CHR 0x60, CHR 0x60, CHR 0x60]"

definition crlf :: string where
  "crlf = [CHR 0x0D, CHR 0x0A]"

text \<open>
  The number of fence markers of a text, counted as \<open>split_str\<close> finds them: from the left,
  without overlap.
\<close>

fun occurrences :: "string \<Rightarrow> string \<Rightarrow> nat" where
  "occurrences sep [] = 0"
| "occurrences sep (c # cs) =
     (if take (length sep) (c # cs) = sep
      then Suc (occurrences sep (drop (length sep - 1) cs))
      else occurrences sep cs)"

subsection \<open>Messages to the webview\<close>

text \<open>
  The value of an \<open>addError\<close> message is a text assembled from a fixed table and the
  API's own message. The table's texts (one of them is not ASCII) are kept as constructors:
  \<open>StatusLine\<close> is the line made of \<open>error.response.status\<close> and
  \<open>error.response.statusText\<close>, the others are the texts for \<open>error.statusCode\<close>, two of
  which quote the login method and the model.
\<close>

datatype error_text =
    StatusLine "nat option" "string option"
  | BadRequest400 "string option" "string option"
  | Unauthorized401
  | Forbidden403
  | NotFound404 "string option" "string option"
  | TooManyRequests429
  | ServerError500

datatype message =
    ShowInProgress (sip_inProgress: bool) (sip_showStopButton: "bool option")
  | AddQuestion (q_value: string) (q_code: "string option") (q_autoScroll: bool)
  | AddResponse (r_value: string) (r_done: bool) (r_id: "string option")
      (r_autoScroll: bool) (r_responseInMarkdown: bool)
  | AddError (e_text: "error_text option") (e_apiMessage: "string option") (e_autoScroll: bool)
  | LoginSuccessful (l_showConversations: bool)

text \<open>
  \<open>r_done\<close> is \<open>False\<close> where the source leaves \<open>done\<close> out (the partial responses).
  A terminal message ends a request in the webview: a response marked done, or an error.
\<close>

fun terminal :: "message \<Rightarrow> bool" where
  "terminal (AddResponse v d i a m) = d"
| "terminal (AddError t a s) = True"
| "terminal _ = False"

fun partialResponse :: "message \<Rightarrow> bool" where
  "partialResponse (AddResponse v d i a m) = (\<not> d)"
| "partialResponse _ = False"

fun isAddResponse :: "message \<Rightarrow> bool" where
  "isAddResponse (AddResponse v d i a m) = True"
| "isAddResponse _ = False"

subsection \<open>The outside world\<close>

text \<open>
  \<open>Delivered m\<close>: \<open>sendMessage\<close> posted \<open>m\<close> to the attached webview;
  \<open>Retained m\<close>: no webview, \<open>m\<close> became the left-over message;
  \<open>Ignored m\<close>: no webview, \<open>m\<close> was sent with \<open>ignoreMessageIfNullWebView\<close>
  and is gone.
  \<open>InvokeGpt35\<close> and \<open>InvokeGpt3\<close> are the calls of \<open>sendMessage\<close> of the two API clients
  (chatgpt-5.1.1 and chatgpt-4.7.2), with the question and the two continuation
  identifiers passed. \<open>CatchThrows\<close>: the \<open>catch\<close> block of \<open>sendApiRequest\<close> itself
  throws a TypeError; the \<open>finally\<close> block still runs and the promise of the call is
  rejected. The remaining constructors are calls of the host: aborting the abort
  controller, focusing or showing the view, the dialogs, the log.
\<close>

datatype effect =
    Delivered message
  | Retained message
  | Ignored message
  | Abort
  | FocusView
  | ShowView
  | InvokeGpt35 string "string option" "string option"
  | InvokeGpt3 string "string option" "string option"
  | AskForApiKey
  | OfferContinuation
  | NotifyAnswered
  | OfferClearAndRetry
  | CatchThrows
  | LogEvent string
  | LogError string

text \<open>The messages handed to \<open>sendMessage\<close>, and those that reached the webview.\<close>

fun sent :: "effect list \<Rightarrow> message list" where
  "sent [] = []"
| "sent (Delivered m # es) = m # sent es"
| "sent (Retained m # es) = m # sent es"
| "sent (Ignored m # es) = m # sent es"
| "sent (e # es) = sent es"

fun delivered :: "effect list \<Rightarrow> message list" where
  "delivered [] = []"
| "delivered (Delivered m # es) = m # delivered es"
| "delivered (e # es) = delivered es"

subsection \<open>The provider\<close>

text \<open>
  An API client is the object built by \<open>new ChatGPTAPI(...)\<close>; of its parameters the key,
  the base URL, the organization and the model are kept (the numeric completion parameters
  are passed through to the client untouched and are left out).
\<close>

record client =
  c_apiKey :: string
  c_apiBaseUrl :: "string option"
  c_organization :: "string option"
  c_model :: "string option"

text \<open>
  \<open>webView\<close> says whether a webview is attached. \<open>abortController\<close> is \<open>None\<close> while
  undefined, else \<open>Some aborted\<close>. \<open>useGpt3\<close> and \<open>useAutoLogin\<close> are undefined only
  inside the constructor, where nothing reads them; \<open>False\<close> stands for undefined there.
\<close>

record provider =
  webView :: bool
  subscribeToResponse :: bool
  autoScroll :: bool
  useAutoLogin :: bool
  useGpt3 :: bool
  chromiumPath :: "string option"
  profilePath :: "string option"
  model :: "string option"
  apiGpt3 :: "client option"
  apiGpt35 :: "client option"
  conversationId :: "string option"
  messageId :: "string option"
  proxyServer :: "string option"
  loginMethod :: "string option"
  authType :: "string option"
  questionCounter :: nat
  inProgress :: bool
  abortController :: "bool option"
  currentMessageId :: string
  response :: string
  leftOverMessage :: "message option"
  effects :: "effect list"

definition emit :: "effect \<Rightarrow> provider \<Rightarrow> provider" where
  "emit e s = s\<lparr>effects := effects s @ [e]\<rparr>"

definition logEvent :: "string \<Rightarrow> provider \<Rightarrow> provider" where
  "logEvent eventName s = emit (LogEvent eventName) s"

definition logError :: "string \<Rightarrow> provider \<Rightarrow> provider" where
  "logError eventName s = emit (LogError eventName) s"

text \<open>\<open>sendMessage(message, ignoreMessageIfNullWebView)\<close>.\<close>

definition sendMessage :: "message \<Rightarrow> bool \<Rightarrow> provider \<Rightarrow> provider" where
  "sendMessage m ignoreMessageIfNullWebView s =
     (if webView s then emit (Delivered m) s
      else if \<not> ignoreMessageIfNullWebView
      then emit (Retained m) (s\<lparr>leftOverMessage := Some m\<rparr>)
      else emit (Ignored m) s)"

text \<open>
  \<open>resolveWebviewView\<close>: the webview is attached and the left-over message, if any, is
  sent to it and forgotten. (Setting the webview's options and page and registering the
  command handler change nothing of the provider.)
\<close>

definition resolveWebviewView :: "provider \<Rightarrow> provider" where
  "resolveWebviewView s =
     (let s1 = s\<lparr>webView := True\<rparr>
      in case leftOverMessage s1 of
           Some m \<Rightarrow> (sendMessage m False s1)\<lparr>leftOverMessage := None\<rparr>
         | None \<Rightarrow> s1)"

definition isCodexModel :: "provider \<Rightarrow> bool" where
  "isCodexModel s = (case model s of None \<Rightarrow> False | Some m \<Rightarrow> startsWith m ''code-'')"

definition isGpt35Model :: "provider \<Rightarrow> bool" where
  "isGpt35Model s = (case model s of None \<Rightarrow> False | Some m \<Rightarrow> startsWith m ''gpt-'')"

text \<open>\<open>this.abortController?.abort?.()\<close>.\<close>

definition abort :: "provider \<Rightarrow> provider" where
  "abort s =
     (case abortController s of
        None \<Rightarrow> s
      | Some a \<Rightarrow> emit Abort (s\<lparr>abortController := Some True\<rparr>))"

definition stopGenerating :: "provider \<Rightarrow> provider" where
  "stopGenerating s =
     (let s1 = abort s;
          s2 = s1\<lparr>inProgress := False\<rparr>;
          s3 = sendMessage (ShowInProgress (inProgress s2) None) False s2;
          responseInMarkdown = (\<not> isCodexModel s3);
          s4 = sendMessage (AddResponse (response s3) True (Some (currentMessageId s3))
                 (autoScroll s3) responseInMarkdown) False s3
      in logEvent ''stopped-generating'' s4)"

definition clearSession :: "provider \<Rightarrow> provider" where
  "clearSession s =
     (let s1 = stopGenerating s;
          s2 = s1\<lparr>apiGpt3 := None\<rparr>;
          s3 = s2\<lparr>messageId := None\<rparr>;
          s4 = s3\<lparr>conversationId := None\<rparr>
      in logEvent ''cleared-session'' s4)"

text \<open>The \<open>clearConversation\<close> and \<open>cleargpt3\<close> commands of the webview.\<close>

definition clearConversation :: "provider \<Rightarrow> provider" where
  "clearConversation s =
     logEvent ''conversation-cleared'' (s\<lparr>messageId := None, conversationId := None\<rparr>)"

definition cleargpt3 :: "provider \<Rightarrow> provider" where
  "cleargpt3 s = logEvent ''gpt3-cleared'' (s\<lparr>apiGpt3 := None\<rparr>)"

subsection \<open>The host: settings, global state, operating system\<close>

text \<open>
  What the provider reads from VS Code and the operating system: the settings under
  \<open>chatgpt.\<close>, the API key kept in the extension's global state, the platform and
  whether \<open>/usr/bin/google-chrome\<close> exists.
\<close>

datatype platform = Win32 | Darwin | OtherPlatform

record host =
  cfg_showNotification :: bool
  cfg_autoScroll :: bool
  cfg_model :: "string option"
  cfg_method :: "string option"
  cfg_authenticationType :: "string option"
  cfg_chromiumPath :: "string option"
  cfg_profilePath :: "string option"
  cfg_proxyServer :: "string option"
  cfg_apiKey :: "string option"
  cfg_organization :: "string option"
  cfg_apiBaseUrl :: "string option"
  state_apiKey :: "string option"
  os_platform :: platform
  chromeExists :: bool

definition setProxyServer :: "host \<Rightarrow> provider \<Rightarrow> provider" where
  "setProxyServer h s = s\<lparr>proxyServer := cfg_proxyServer h\<rparr>"

definition setMethod :: "host \<Rightarrow> provider \<Rightarrow> provider" where
  "setMethod h s =
     clearSession (s\<lparr>loginMethod := cfg_method h, useGpt3 := True, useAutoLogin := False\<rparr>)"

definition setAuthType :: "host \<Rightarrow> provider \<Rightarrow> provider" where
  "setAuthType h s = clearSession (s\<lparr>authType := cfg_authenticationType h\<rparr>)"

definition defaultChromePath :: "host \<Rightarrow> string" where
  "defaultChromePath h =
     (case os_platform h of
        Win32 \<Rightarrow>
          ''C:'' @ [CHR 0x5C] @ ''Program Files'' @ [CHR 0x5C] @ ''Google'' @ [CHR 0x5C]
          @ ''Chrome'' @ [CHR 0x5C] @ ''Application'' @ [CHR 0x5C] @ ''chrome.exe''
      | Darwin \<Rightarrow> ''/Applications/Google Chrome.app/Contents/MacOS/Google Chrome''
      | OtherPlatform \<Rightarrow>
          (if chromeExists h then ''/usr/bin/google-chrome''
           else ''/usr/bin/google-chrome-stable''))"

definition setChromeExecutablePath :: "host \<Rightarrow> provider \<Rightarrow> provider" where
  "setChromeExecutablePath h s =
     clearSession (s\<lparr>chromiumPath :=
       (if truthy (cfg_chromiumPath h) then cfg_chromiumPath h
        else Some (defaultChromePath h))\<rparr>)"

definition setProfilePath :: "host \<Rightarrow> provider \<Rightarrow> provider" where
  "setProfilePath h s = clearSession (s\<lparr>profilePath := cfg_profilePath h\<rparr>)"

text \<open>
  The constructor: the field initialisers, the three settings read directly, then the five
  setters in the order of the source.
\<close>

definition fresh :: "host \<Rightarrow> provider" where
  "fresh h =
     \<lparr>webView = False, subscribeToResponse = cfg_showNotification h,
      autoScroll = cfg_autoScroll h, useAutoLogin = False, useGpt3 = False,
      chromiumPath = None, profilePath = None, model = cfg_model h,
      apiGpt3 = None, apiGpt35 = None, conversationId = None, messageId = None,
      proxyServer = None, loginMethod = None, authType = None,
      questionCounter = 0, inProgress = False, abortController = None,
      currentMessageId = [], response = [], leftOverMessage = None, effects = []\<rparr>"

definition construct :: "host \<Rightarrow> provider" where
  "construct h =
     setAuthType h (setProxyServer h (setProfilePath h
       (setChromeExecutablePath h (setMethod h (fresh h)))))"

subsection \<open>Preparing the conversation\<close>

text \<open>
  \<open>String.prototype.trim\<close>. Texts are lists of characters with codes up to 0xFF; among
  these the white space and line terminators that \<open>trim\<close> strips are the space, the
  no-break space 0xA0, tab, line feed, vertical tab, form feed and carriage return. (The
  white space beyond 0xFF has no character here.)
\<close>

definition isSpace :: "char \<Rightarrow> bool" where
  "isSpace c =
     (c \<in> set [CHR '' '', CHR 0xA0, CHR 0x09, CHR 0x0A, CHR 0x0B, CHR 0x0C, CHR 0x0D])"

definition trim :: "string \<Rightarrow> string" where
  "trim t = rev (dropWhile isSpace (rev (dropWhile isSpace t)))"

definition newClient :: "string \<Rightarrow> host \<Rightarrow> provider \<Rightarrow> client" where
  "newClient apiKey h s =
     \<lparr>c_apiKey = apiKey,
      c_apiBaseUrl =
        (case cfg_apiBaseUrl h of
           None \<Rightarrow> None
         | Some u \<Rightarrow> (if trim u = [] then None else Some (trim u))),
      c_organization = cfg_organization h,
      c_model = model s\<rparr>"

text \<open>
  \<open>prepareConversation(modelChanged)\<close> returns whether a client is ready. Without an API
  key it opens the dialog asking for one and returns false; what the user answers there
  arrives later, outside this call, and is not part of it.
\<close>

definition prepareConversation :: "bool \<Rightarrow> host \<Rightarrow> provider \<Rightarrow> bool \<times> provider" where
  "prepareConversation modelChanged h s =
     (if modelChanged \<and> useAutoLogin s then (False, s)
      else if useGpt3 s \<and>
              ((isGpt35Model s \<and> apiGpt35 s = None) \<or>
               (\<not> isGpt35Model s \<and> apiGpt3 s = None) \<or> modelChanged)
      then
        (let apiKey = (if truthy (cfg_apiKey h) then cfg_apiKey h else state_apiKey h)
         in if \<not> truthy apiKey then (False, emit AskForApiKey s)
            else
              (let c = newClient (the apiKey) h s;
                   s1 = (if isGpt35Model s then s\<lparr>apiGpt35 := Some c\<rparr>
                         else s\<lparr>apiGpt3 := Some c\<rparr>)
               in (True, sendMessage (LoginSuccessful (useAutoLogin s1)) True s1)))
      else (True, sendMessage (LoginSuccessful (useAutoLogin s)) True s))"

subsection \<open>Sending a request\<close>

record options =
  opt_command :: string
  opt_code :: "string option"
  opt_previousAnswer :: "string option"
  opt_language :: "string option"

definition processQuestion :: "string \<Rightarrow> string option \<Rightarrow> string option \<Rightarrow> string" where
  "processQuestion question code language =
     (case code of
        None \<Rightarrow> question
      | Some c \<Rightarrow>
          question
          @ (if truthy language
             then '' (The following code is in '' @ the language @ '' programming language)''
             else [])
          @ '': '' @ c)
     @ crlf"

text \<open>
  What the API client hands back: the result of a call that resolves, or the value it
  throws. A thrown value is \<open>None\<close> when it is \<open>null\<close> or \<open>undefined\<close>; any other
  value is given by what the \<open>catch\<close> block reads of it (a property the value does not
  have reads as undefined, \<open>None\<close>; \<open>err_tostring\<close> is what \<open>error.tostring()\<close>
  returns where the value has such a method).
\<close>

record chat_result =
  res_text :: string
  res_id :: "string option"
  res_conversationId :: "string option"
  res_parentMessageId :: "string option"

record api_error =
  err_response_status :: "nat option"
  err_response_statusText :: "string option"
  err_response_message :: "string option"
  err_tostring :: "string option"
  err_message :: "string option"
  err_name :: "string option"
  err_statusCode :: "nat option"

datatype completion = Resolves chat_result | Throws "api_error option"

text \<open>
  While the provider awaits the client, the client calls \<open>onProgress\<close> with the partial
  text so far, and the webview may send \<open>stopGenerating\<close>. A \<open>client_run\<close> is what
  happens during one call of a client: these events in their order, then how the call ends.
  The two clients are libraries outside the provider; what they do is a parameter of every
  request here, and no order is imposed on it: a callback may follow a stop, and a stopped
  call may resolve or throw. (Other commands of the webview arriving during the call are
  not part of a run; the provider in the middle of a call is \<open>pendingCall\<close> below, from
  which a further request can be issued.)
\<close>

datatype pending_event = OnProgress string | StopCommand

record client_run =
  during :: "pending_event list"
  completion :: completion

datatype api_version = Gpt35 | Gpt3

text \<open>
  The two \<open>onProgress\<close> callbacks: they differ in the identifier sent along.
  \<open>responseInMarkdown\<close> is the constant computed before the call.
\<close>

definition onProgress :: "api_version \<Rightarrow> bool \<Rightarrow> string \<Rightarrow> provider \<Rightarrow> provider" where
  "onProgress v responseInMarkdown partialText s =
     (let s1 = s\<lparr>response := partialText\<rparr>
      in sendMessage (AddResponse (response s1) False
           (case v of Gpt35 \<Rightarrow> conversationId s1 | Gpt3 \<Rightarrow> messageId s1)
           (autoScroll s1) responseInMarkdown) False s1)"

fun pendingStep :: "api_version \<Rightarrow> bool \<Rightarrow> pending_event \<Rightarrow> provider \<Rightarrow> provider" where
  "pendingStep v rim (OnProgress t) s = onProgress v rim t s"
| "pendingStep v rim StopCommand s = stopGenerating s"

fun runPending :: "api_version \<Rightarrow> bool \<Rightarrow> pending_event list \<Rightarrow> provider \<Rightarrow> provider" where
  "runPending v rim [] s = s"
| "runPending v rim (e # es) s = runPending v rim es (pendingStep v rim e s)"

text \<open>
  The call of the client inside \<open>try\<close>: \<open>Inl\<close> is the error thrown, with the provider
  as it is when the error arrives; \<open>Inr\<close> is the provider after the result has been
  assigned. With no client to call, nothing is awaited and nothing assigned.
\<close>

definition callClient ::
  "string \<Rightarrow> bool \<Rightarrow> client_run \<Rightarrow> provider \<Rightarrow> (api_error option \<times> provider) + provider"
  where
  "callClient question responseInMarkdown run s =
     (if useGpt3 s then
        (if isGpt35Model s \<and> apiGpt35 s \<noteq> None then
           (let s1 = emit (InvokeGpt35 question (conversationId s) (messageId s)) s;
                s2 = runPending Gpt35 responseInMarkdown (during run) s1
            in case completion run of
                 Throws e \<Rightarrow> Inl (e, s2)
               | Resolves r \<Rightarrow>
                   Inr (s2\<lparr>response := res_text r, conversationId := res_id r,
                           messageId := res_parentMessageId r\<rparr>))
         else if \<not> isGpt35Model s \<and> apiGpt3 s \<noteq> None then
           (let s1 = emit (InvokeGpt3 question (conversationId s) (messageId s)) s;
                s2 = runPending Gpt3 responseInMarkdown (during run) s1
            in case completion run of
                 Throws e \<Rightarrow> Inl (e, s2)
               | Resolves r \<Rightarrow>
                   Inr (s2\<lparr>response := res_text r, conversationId := res_conversationId r,
                           messageId := res_parentMessageId r\<rparr>))
         else Inr s)
      else Inr s)"

text \<open>\<open>((this.response.split(fence).length) % 2) === 1\<close>.\<close>

definition hasContinuation :: "string \<Rightarrow> bool" where
  "hasContinuation r = (length (split_str fence r) mod 2 = 1)"

definition closingFence :: string where
  "closingFence = '' '' @ crlf @ '' '' @ fence @ crlf"

text \<open>
  The rest of the \<open>try\<close> block. \<open>OfferContinuation\<close> is the dialog with the button
  that continues and combines the answers; pressing it is \<open>continueAndCombine\<close> below.
\<close>

definition respond :: "options \<Rightarrow> bool \<Rightarrow> provider \<Rightarrow> provider" where
  "respond opts responseInMarkdown s =
     (let s1 = (case opt_previousAnswer opts of
                  None \<Rightarrow> s
                | Some previousAnswer \<Rightarrow> s\<lparr>response := previousAnswer @ response s\<rparr>);
          s2 = (if hasContinuation (response s1)
                then emit OfferContinuation (s1\<lparr>response := response s1 @ closingFence\<rparr>)
                else s1);
          s3 = sendMessage (AddResponse (response s2) True (Some (currentMessageId s2))
                 (autoScroll s2) responseInMarkdown) False s2
      in if subscribeToResponse s3 then emit NotifyAnswered s3 else s3)"

text \<open>
  The \<open>catch\<close> block. It reads the error through \<open>error?.\<close> up to the test of the
  status line, and as \<open>error.statusCode\<close> from there on: on \<open>null\<close> or \<open>undefined\<close>
  the status line is absent and the first read of \<open>error.statusCode\<close> throws, after the
  log line and before any message.
\<close>

definition truthyNat :: "nat option \<Rightarrow> bool" where
  "truthyNat v = (case v of None \<Rightarrow> False | Some n \<Rightarrow> n \<noteq> 0)"

definition apiMessageOf :: "api_error \<Rightarrow> string option" where
  "apiMessageOf e =
     (if truthy (err_response_message e) then err_response_message e
      else if truthy (err_tostring e) then err_tostring e
      else if truthy (err_message e) then err_message e
      else err_name e)"

definition handleError :: "api_error option \<Rightarrow> provider \<Rightarrow> provider" where
  "handleError error s =
     (case error of
        None \<Rightarrow> emit CatchThrows (logError ''api-request-failed'' s)
      | Some e \<Rightarrow>
         (let apiMessage = apiMessageOf e;
              s1 = logError ''api-request-failed'' s;
              (message, s2) =
                (if truthyNat (err_response_status e) \<or> truthy (err_response_statusText e)
                 then (Some (StatusLine
                         (if truthyNat (err_response_status e) then err_response_status e
                          else None)
                         (if truthy (err_response_statusText e) then err_response_statusText e
                          else None)),
                       emit OfferClearAndRetry s1)
                 else if err_statusCode e = Some 400
                 then (Some (BadRequest400 (loginMethod s1) (model s1)), s1)
                 else if err_statusCode e = Some 401 then (Some Unauthorized401, s1)
                 else if err_statusCode e = Some 403 then (Some Forbidden403, s1)
                 else if err_statusCode e = Some 404
                 then (Some (NotFound404 (loginMethod s1) (model s1)), s1)
                 else if err_statusCode e = Some 429 then (Some TooManyRequests429, s1)
                 else if err_statusCode e = Some 500 then (Some ServerError500, s1)
                 else (None, s1))
          in sendMessage
               (AddError message (if truthy apiMessage then apiMessage else None)
                  (autoScroll s2))
               False s2))"

text \<open>The \<open>finally\<close> block.\<close>

definition finallyBlock :: "provider \<Rightarrow> provider" where
  "finallyBlock s =
     (let s1 = s\<lparr>inProgress := False\<rparr>
      in sendMessage (ShowInProgress (inProgress s1) None) False s1)"

text \<open>
  \<open>sendApiRequest(prompt, options)\<close>. The host \<open>h\<close>, the identifier \<open>randomId\<close>
  drawn by \<open>getRandomId\<close> and the run of the client are what the call meets outside.
\<close>

definition sendApiRequest ::
  "string \<Rightarrow> options \<Rightarrow> host \<Rightarrow> string \<Rightarrow> client_run \<Rightarrow> provider \<Rightarrow> provider" where
  "sendApiRequest prompt opts h randomId run s =
     (if inProgress s then s
      else
        (let s1 = s\<lparr>questionCounter := questionCounter s + 1\<rparr>;
             s2 = logEvent ''api-request-sent'' s1;
             (ready, s3) = prepareConversation False h s2
         in if \<not> ready then s3
            else
              (let s4 = s3\<lparr>response := []\<rparr>;
                   question = processQuestion prompt (opt_code opts) (opt_language opts);
                   responseInMarkdown = (\<not> isCodexModel s4);
                   s5 = emit (if webView s4 then ShowView else FocusView) s4;
                   s6 = s5\<lparr>inProgress := True\<rparr>;
                   s7 = s6\<lparr>abortController := Some False\<rparr>;
                   s8 = sendMessage (ShowInProgress (inProgress s7) (Some (useGpt3 s7)))
                          False s7;
                   s9 = s8\<lparr>currentMessageId := randomId\<rparr>;
                   s10 = sendMessage (AddQuestion prompt (opt_code opts) (autoScroll s9))
                           False s9
               in finallyBlock
                    (case callClient question responseInMarkdown run s10 of
                       Inr s11 \<Rightarrow> respond opts responseInMarkdown s11
                     | Inl (e, s11) \<Rightarrow> handleError e s11))))"

text \<open>The follow-up request issued when the user accepts the offer to continue.\<close>

definition continueAndCombine ::
  "options \<Rightarrow> host \<Rightarrow> string \<Rightarrow> client_run \<Rightarrow> provider \<Rightarrow> provider" where
  "continueAndCombine opts h randomId run s =
     sendApiRequest ''Continue''
       \<lparr>opt_command = opt_command opts, opt_code = None,
        opt_previousAnswer = Some (response s), opt_language = None\<rparr>
       h randomId run s"

text \<open>What a call added to the outside world: the effects and messages since \<open>s\<close>.\<close>

definition effectsSince :: "provider \<Rightarrow> provider \<Rightarrow> effect list" where
  "effectsSince s s' = drop (length (effects s)) (effects s')"

definition sentSince :: "provider \<Rightarrow> provider \<Rightarrow> message list" where
  "sentSince s s' = sent (effectsSince s s')"

text \<open>The clients called, in order.\<close>

fun invocations :: "effect list \<Rightarrow> api_version list" where
  "invocations [] = []"
| "invocations (InvokeGpt35 q c p # es) = Gpt35 # invocations es"
| "invocations (InvokeGpt3 q c p # es) = Gpt3 # invocations es"
| "invocations (e # es) = invocations es"

text \<open>\<open>grows s s'\<close>: the outside world of \<open>s'\<close> continues the one of \<open>s\<close>.\<close>

definition grows :: "provider \<Rightarrow> provider \<Rightarrow> bool" where
  "grows s s' = (effects s' = effects s @ effectsSince s s')"

text \<open>
  A sequence of calls of \<open>sendMessage\<close>, each message with its
  \<open>ignoreMessageIfNullWebView\<close> argument.
\<close>

fun publishAll :: "(message \<times> bool) list \<Rightarrow> provider \<Rightarrow> provider" where
  "publishAll [] s = s"
| "publishAll ((m, ignoreMessageIfNullWebView) # ms) s =
     publishAll ms (sendMessage m ignoreMessageIfNullWebView s)"


fun progressTexts :: "pending_event list \<Rightarrow> string list" where
  "progressTexts [] = []"
| "progressTexts (OnProgress t # es) = t # progressTexts es"
| "progressTexts (StopCommand # es) = progressTexts es"

subsection \<open>Concrete hosts, providers and client runs\<close>

text \<open>
  A host with an API key in the settings and the given model; the provider constructed on
  it, before and after its webview is attached; a request issued from the input box; runs
  of the client that resolve with a text or throw the error of an aborted request.
\<close>

definition demoHost :: "string \<Rightarrow> host" where
  "demoHost m =
     \<lparr>cfg_showNotification = False, cfg_autoScroll = True, cfg_model = Some m,
      cfg_method = Some ''GPT3 OpenAI API Key'', cfg_authenticationType = None,
      cfg_chromiumPath = None, cfg_profilePath = None, cfg_proxyServer = None,
      cfg_apiKey = Some ''sk-demo'', cfg_organization = None, cfg_apiBaseUrl = None,
      state_apiKey = None, os_platform = OtherPlatform, chromeExists = True\<rparr>"

definition detached :: "string \<Rightarrow> provider" where
  "detached m = construct (demoHost m)"

definition attached :: "string \<Rightarrow> provider" where
  "attached m = resolveWebviewView (detached m)"

definition freeText :: "string option \<Rightarrow> options" where
  "freeText previousAnswer =
     \<lparr>opt_command = ''freeText'', opt_code = None, opt_previousAnswer = previousAnswer,
      opt_language = None\<rparr>"

definition resolving :: "pending_event list \<Rightarrow> string \<Rightarrow> client_run" where
  "resolving es t =
     \<lparr>during = es,
      completion = Resolves \<lparr>res_text = t, res_id = Some ''id-1'',
        res_conversationId = Some ''conv-1'', res_parentMessageId = Some ''parent-1''\<rparr>\<rparr>"

definition abortError :: api_error where
  "abortError =
     \<lparr>err_response_status = None, err_response_statusText = None,
      err_response_message = None, err_tostring = None,
      err_message = Some ''The user aborted a request.'', err_name = Some ''AbortError'',
      err_statusCode = None\<rparr>"

definition throwing :: "pending_event list \<Rightarrow> client_run" where
  "throwing es = \<lparr>during = es, completion = Throws (Some abortError)\<rparr>"

text \<open>A provider that has answered one question.\<close>

definition answered :: "string \<Rightarrow> provider" where
  "answered m =
     sendApiRequest ''hello'' (freeText None) (demoHost m) ''request-1''
       (resolving [OnProgress ''Hi''] ''Hi there'') (attached m)"

subsection \<open>The blocks of a request\<close>

text \<open>
  Names for the stages of \<open>sendApiRequest\<close>, as the proofs below cut it:
  \<open>counted\<close> is the provider after the question counter and the log line,
  \<open>started\<close> the provider at the entry of \<open>try\<close> given the provider after
  \<open>prepareConversation\<close>, and \<open>entered\<close> the two together.
\<close>

definition counted :: "provider \<Rightarrow> provider" where
  "counted s = logEvent ''api-request-sent'' (s\<lparr>questionCounter := questionCounter s + 1\<rparr>)"

definition started :: "string \<Rightarrow> options \<Rightarrow> string \<Rightarrow> provider \<Rightarrow> provider" where
  "started prompt opts randomId s =
     sendMessage (AddQuestion prompt (opt_code opts) (autoScroll s)) False
       ((sendMessage (ShowInProgress True (Some (useGpt3 s))) False
          ((emit (if webView s then ShowView else FocusView) (s\<lparr>response := []\<rparr>))
             \<lparr>inProgress := True, abortController := Some False\<rparr>))
        \<lparr>currentMessageId := randomId\<rparr>)"

definition entered :: "string \<Rightarrow> options \<Rightarrow> host \<Rightarrow> string \<Rightarrow> provider \<Rightarrow> provider" where
  "entered prompt opts h randomId s =
     started prompt opts randomId (snd (prepareConversation False h (counted s)))"


text \<open>
  \<open>pending\<close> is the provider while the call of the client is awaited, after the events
  \<open>es\<close> have arrived (the client is \<open>version s\<close>); \<open>awaited\<close> is the provider when the
  call ends, \<open>settle\<close> the \<open>try\<close> and \<open>catch\<close> blocks together, and \<open>finalText\<close> the
  text of the final response: \<open>answerText\<close> of the previous answer and the text the
  client resolved with.
\<close>

definition version :: "provider \<Rightarrow> api_version" where
  "version s = (if isGpt35Model s then Gpt35 else Gpt3)"

definition pending :: "string \<Rightarrow> bool \<Rightarrow> pending_event list \<Rightarrow> provider \<Rightarrow> provider" where
  "pending q rim es s =
     runPending (version s) rim es
       (emit (if isGpt35Model s then InvokeGpt35 q (conversationId s) (messageId s)
              else InvokeGpt3 q (conversationId s) (messageId s)) s)"

definition awaited :: "string \<Rightarrow> bool \<Rightarrow> client_run \<Rightarrow> provider \<Rightarrow> provider" where
  "awaited q rim run s = pending q rim (during run) s"

definition settle :: "options \<Rightarrow> string \<Rightarrow> bool \<Rightarrow> client_run \<Rightarrow> provider \<Rightarrow> provider" where
  "settle opts q rim run s =
     (case callClient q rim run s of
        Inr s11 \<Rightarrow> respond opts rim s11
      | Inl (e, s11) \<Rightarrow> handleError e s11)"

definition answerText :: "string option \<Rightarrow> string \<Rightarrow> string" where
  "answerText previous t =
     (let r = (case previous of None \<Rightarrow> t | Some previousAnswer \<Rightarrow> previousAnswer @ t)
      in if hasContinuation r then r @ closingFence else r)"

definition finalText :: "options \<Rightarrow> provider \<Rightarrow> string" where
  "finalText opts s = answerText (opt_previousAnswer opts) (response s)"

text \<open>
  \<open>pendingCall\<close> is the provider in the middle of a request that was accepted and has a
  client: the call of the client has been made and has neither resolved nor thrown, and
  the events \<open>es\<close> have arrived. \<open>sendApiRequest\<close> goes through these providers: it
  handles the end of the call in \<open>pendingCall\<close> of all the events of the run
  (\<open>sendApiRequest_through_pendingCall\<close>), which it reaches from \<open>pendingCall\<close> of any
  first part of them by the events that remain (\<open>pendingCall_append\<close>).
\<close>

definition pendingCall ::
  "string \<Rightarrow> options \<Rightarrow> host \<Rightarrow> string \<Rightarrow> pending_event list \<Rightarrow> provider \<Rightarrow> provider" where
  "pendingCall prompt opts h randomId es s =
     pending (processQuestion prompt (opt_code opts) (opt_language opts)) (\<not> isCodexModel s)
       es (entered prompt opts h randomId s)"


text \<open>An \<open>addResponse\<close> whose \<open>responseInMarkdown\<close> is not \<open>rim\<close>.\<close>

definition otherMarkdown :: "bool \<Rightarrow> message \<Rightarrow> bool" where
  "otherMarkdown rim m = (isAddResponse m \<and> r_responseInMarkdown m \<noteq> rim)"


section \<open>Lemmas\<close>

subsection \<open>The outside world only grows\<close>

lemma sent_append: "sent (xs @ ys) = sent xs @ sent ys"
  by (induction xs rule: sent.induct) simp_all

lemma delivered_append: "delivered (xs @ ys) = delivered xs @ delivered ys"
  by (induction xs rule: delivered.induct) simp_all

lemma invocations_append: "invocations (xs @ ys) = invocations xs @ invocations ys"
  by (induction xs rule: invocations.induct) simp_all

lemma emit_fields:
  "webView (emit e s) = webView s"
  "subscribeToResponse (emit e s) = subscribeToResponse s"
  "autoScroll (emit e s) = autoScroll s"
  "useAutoLogin (emit e s) = useAutoLogin s"
  "useGpt3 (emit e s) = useGpt3 s"
  "model (emit e s) = model s"
  "apiGpt3 (emit e s) = apiGpt3 s"
  "apiGpt35 (emit e s) = apiGpt35 s"
  "conversationId (emit e s) = conversationId s"
  "messageId (emit e s) = messageId s"
  "loginMethod (emit e s) = loginMethod s"
  "inProgress (emit e s) = inProgress s"
  "abortController (emit e s) = abortController s"
  "currentMessageId (emit e s) = currentMessageId s"
  "response (emit e s) = response s"
  "leftOverMessage (emit e s) = leftOverMessage s"
  "effects (emit e s) = effects s @ [e]"
  by (simp_all add: emit_def)

lemma sendMessage_fields:
  "webView (sendMessage m i s) = webView s"
  "subscribeToResponse (sendMessage m i s) = subscribeToResponse s"
  "autoScroll (sendMessage m i s) = autoScroll s"
  "useAutoLogin (sendMessage m i s) = useAutoLogin s"
  "useGpt3 (sendMessage m i s) = useGpt3 s"
  "model (sendMessage m i s) = model s"
  "apiGpt3 (sendMessage m i s) = apiGpt3 s"
  "apiGpt35 (sendMessage m i s) = apiGpt35 s"
  "conversationId (sendMessage m i s) = conversationId s"
  "messageId (sendMessage m i s) = messageId s"
  "loginMethod (sendMessage m i s) = loginMethod s"
  "inProgress (sendMessage m i s) = inProgress s"
  "abortController (sendMessage m i s) = abortController s"
  "currentMessageId (sendMessage m i s) = currentMessageId s"
  "response (sendMessage m i s) = response s"
  by (simp_all add: sendMessage_def emit_def)

lemma sendMessage_sent: "sent (effects (sendMessage m i s)) = sent (effects s) @ [m]"
  by (simp add: sendMessage_def emit_def sent_append)

lemma sendMessage_invocations: "invocations (effects (sendMessage m i s)) = invocations (effects s)"
  by (simp add: sendMessage_def emit_def invocations_append)

lemma grows_refl: "grows s s"
  by (simp add: grows_def effectsSince_def)

lemma growsI: "effects s' = effects s @ new \<Longrightarrow> grows s s'"
  by (simp add: grows_def effectsSince_def)

lemma grows_trans [trans]: "grows a b \<Longrightarrow> grows b c \<Longrightarrow> grows a c"
  unfolding grows_def effectsSince_def
  by (metis append.assoc append_eq_conv_conj)

lemma grows_emit: "grows s (emit e s)"
  by (rule growsI) (simp add: emit_def)

lemma grows_sendMessage: "grows s (sendMessage m i s)"
  by (rule growsI [where new = "effectsSince s (sendMessage m i s)"]) (simp add: sendMessage_def emit_def effectsSince_def)

lemma grows_upd:
  "grows s (s\<lparr>inProgress := b\<rparr>)"
  "grows s (s\<lparr>response := r\<rparr>)"
  by (simp_all add: grows_def effectsSince_def)

subsection \<open>Stopping and the progress callbacks\<close>

lemma abort_fields:
  "webView (abort s) = webView s"
  "autoScroll (abort s) = autoScroll s"
  "model (abort s) = model s"
  "apiGpt3 (abort s) = apiGpt3 s"
  "apiGpt35 (abort s) = apiGpt35 s"
  "conversationId (abort s) = conversationId s"
  "messageId (abort s) = messageId s"
  "currentMessageId (abort s) = currentMessageId s"
  "response (abort s) = response s"
  "sent (effects (abort s)) = sent (effects s)"
  "invocations (effects (abort s)) = invocations (effects s)"
  by (simp_all add: abort_def emit_def sent_append invocations_append split: option.splits)

lemma grows_abort: "grows s (abort s)"
  by (rule growsI [where new = "effectsSince s (abort s)"]) (simp add: abort_def emit_def effectsSince_def split: option.splits)

lemma stopGenerating_fields:
  "webView (stopGenerating s) = webView s"
  "autoScroll (stopGenerating s) = autoScroll s"
  "model (stopGenerating s) = model s"
  "apiGpt3 (stopGenerating s) = apiGpt3 s"
  "apiGpt35 (stopGenerating s) = apiGpt35 s"
  "conversationId (stopGenerating s) = conversationId s"
  "messageId (stopGenerating s) = messageId s"
  "currentMessageId (stopGenerating s) = currentMessageId s"
  "response (stopGenerating s) = response s"
  "inProgress (stopGenerating s) = False"
  by (simp_all add: stopGenerating_def Let_def logEvent_def emit_fields sendMessage_fields abort_fields)

lemma stopGenerating_sent:
  "sent (effects (stopGenerating s)) = sent (effects s) @
     [ShowInProgress False None,
      AddResponse (response s) True (Some (currentMessageId s)) (autoScroll s) (\<not> isCodexModel s)]"
  by (simp add: stopGenerating_def Let_def logEvent_def emit_fields sendMessage_fields abort_fields sendMessage_sent sent_append
      isCodexModel_def)

lemma grows_logEvent: "grows s (logEvent n s)"
  by (simp add: logEvent_def grows_emit)

lemma grows_stopGenerating: "grows s (stopGenerating s)"
proof -
  let ?s1 = "abort s"
  let ?s2 = "?s1\<lparr>inProgress := False\<rparr>"
  let ?s3 = "sendMessage (ShowInProgress (inProgress ?s2) None) False ?s2"
  let ?s4 = "sendMessage (AddResponse (response ?s3) True (Some (currentMessageId ?s3))
                 (autoScroll ?s3) (\<not> isCodexModel ?s3)) False ?s3"
  have "grows s ?s1" by (rule grows_abort)
  also have "grows ?s1 ?s2" by (rule grows_upd)
  also have "grows ?s2 ?s3" by (rule grows_sendMessage)
  also have "grows ?s3 ?s4" by (rule grows_sendMessage)
  also have "grows ?s4 (logEvent ''stopped-generating'' ?s4)" by (rule grows_logEvent)
  finally show ?thesis by (simp add: stopGenerating_def Let_def)
qed

lemma stopGenerating_invocations:
  "invocations (effects (stopGenerating s)) = invocations (effects s)"
  by (simp add: stopGenerating_def Let_def logEvent_def emit_fields sendMessage_invocations
      abort_fields invocations_append)

lemma onProgress_fields:
  "webView (onProgress v rim t s) = webView s"
  "autoScroll (onProgress v rim t s) = autoScroll s"
  "model (onProgress v rim t s) = model s"
  "apiGpt3 (onProgress v rim t s) = apiGpt3 s"
  "apiGpt35 (onProgress v rim t s) = apiGpt35 s"
  "conversationId (onProgress v rim t s) = conversationId s"
  "messageId (onProgress v rim t s) = messageId s"
  "currentMessageId (onProgress v rim t s) = currentMessageId s"
  "inProgress (onProgress v rim t s) = inProgress s"
  "response (onProgress v rim t s) = t"
  by (simp_all add: onProgress_def Let_def sendMessage_fields)

lemma onProgress_sent:
  "sent (effects (onProgress v rim t s)) = sent (effects s) @
     [AddResponse t False (case v of Gpt35 \<Rightarrow> conversationId s | Gpt3 \<Rightarrow> messageId s)
        (autoScroll s) rim]"
  by (cases v) (simp_all add: onProgress_def Let_def sendMessage_sent)

lemma onProgress_invocations:
  "invocations (effects (onProgress v rim t s)) = invocations (effects s)"
  by (simp add: onProgress_def Let_def sendMessage_invocations)

lemma grows_onProgress: "grows s (onProgress v rim t s)"
proof -
  have "grows s (s\<lparr>response := t\<rparr>)" by (rule grows_upd)
  also have "grows (s\<lparr>response := t\<rparr>) (onProgress v rim t s)"
    unfolding onProgress_def Let_def by (rule grows_sendMessage)
  finally show ?thesis .
qed

lemma grows_pendingStep: "grows s (pendingStep v rim e s)"
  by (cases e) (simp_all add: grows_onProgress grows_stopGenerating)

lemma grows_runPending: "grows s (runPending v rim es s)"
proof (induction es arbitrary: s)
  case Nil
  show ?case by (simp add: grows_refl)
next
  case (Cons e es)
  have "grows s (pendingStep v rim e s)" by (rule grows_pendingStep)
  also have "grows (pendingStep v rim e s) (runPending v rim es (pendingStep v rim e s))"
    by (rule Cons.IH)
  finally show ?case by simp
qed

lemma pendingStep_fields:
  "webView (pendingStep v rim e s) = webView s"
  "autoScroll (pendingStep v rim e s) = autoScroll s"
  "model (pendingStep v rim e s) = model s"
  "apiGpt3 (pendingStep v rim e s) = apiGpt3 s"
  "apiGpt35 (pendingStep v rim e s) = apiGpt35 s"
  "conversationId (pendingStep v rim e s) = conversationId s"
  "messageId (pendingStep v rim e s) = messageId s"
  "currentMessageId (pendingStep v rim e s) = currentMessageId s"
  "invocations (effects (pendingStep v rim e s)) = invocations (effects s)"
  by (cases e; simp add: onProgress_fields stopGenerating_fields onProgress_invocations
      stopGenerating_invocations)+

lemma runPending_fields:
  "webView (runPending v rim es s) = webView s"
  "autoScroll (runPending v rim es s) = autoScroll s"
  "model (runPending v rim es s) = model s"
  "apiGpt3 (runPending v rim es s) = apiGpt3 s"
  "apiGpt35 (runPending v rim es s) = apiGpt35 s"
  "conversationId (runPending v rim es s) = conversationId s"
  "messageId (runPending v rim es s) = messageId s"
  "currentMessageId (runPending v rim es s) = currentMessageId s"
  "invocations (effects (runPending v rim es s)) = invocations (effects s)"
  by (induction es arbitrary: s; simp add: pendingStep_fields)+




lemma runPending_partial:
  "map r_value (filter partialResponse (sent (effects (runPending v rim es s)))) =
     map r_value (filter partialResponse (sent (effects s))) @ progressTexts es"
proof (induction es arbitrary: s)
  case Nil
  show ?case by simp
next
  case (Cons e es)
  show ?case
  proof (cases e)
    case (OnProgress t)
    then show ?thesis
      using Cons.IH [of "onProgress v rim t s"]
      by (simp add: onProgress_sent)
  next
    case StopCommand
    then show ?thesis
      using Cons.IH [of "stopGenerating s"]
      by (simp add: stopGenerating_sent)
  qed
qed

lemma otherMarkdown_simps:
  "otherMarkdown rim (AddResponse v d i a x) = (x \<noteq> rim)"
  "otherMarkdown rim (ShowInProgress b c) = False"
  "otherMarkdown rim (AddQuestion q k f) = False"
  "otherMarkdown rim (AddError t u f) = False"
  "otherMarkdown rim (LoginSuccessful g) = False"
  by (simp_all add: otherMarkdown_def)

lemma runPending_markdown:
  "isCodexModel s = (\<not> rim) \<Longrightarrow>
   filter (otherMarkdown rim)
     (sent (effects (runPending v rim es s))) =
   filter (otherMarkdown rim) (sent (effects s))"
proof (induction es arbitrary: s)
  case Nil
  show ?case by simp
next
  case (Cons e es)
  have m: "isCodexModel (pendingStep v rim e s) = (\<not> rim)"
    using Cons.prems by (simp add: isCodexModel_def pendingStep_fields)
  show ?case
  proof (cases e)
    case (OnProgress t)
    then show ?thesis
      using Cons.IH [OF m] by (simp add: onProgress_sent otherMarkdown_simps)
  next
    case StopCommand
    then show ?thesis
      using Cons.IH [OF m] Cons.prems by (simp add: stopGenerating_sent otherMarkdown_simps)
  qed
qed

subsection \<open>The stages of a request\<close>

lemma sendApiRequest_accepted:
  assumes "\<not> inProgress s"
  shows "sendApiRequest prompt opts h randomId run s =
    (let p = prepareConversation False h (counted s)
     in if \<not> fst p then snd p
        else finallyBlock
          (case callClient (processQuestion prompt (opt_code opts) (opt_language opts))
                  (\<not> isCodexModel (snd p)) run (started prompt opts randomId (snd p)) of
             Inr s11 \<Rightarrow> respond opts (\<not> isCodexModel (snd p)) s11
           | Inl (e, s11) \<Rightarrow> handleError e s11))"
proof -
  have rim: "isCodexModel (x\<lparr>response := []\<rparr>) = isCodexModel x" for x
    by (simp add: isCodexModel_def)
  show ?thesis
    using assms
    by (simp add: sendApiRequest_def started_def counted_def Let_def emit_fields
        sendMessage_fields rim split: prod.splits cong: sum.case_cong)
qed

lemma started_fields:
  "webView (started p opts r s) = webView s"
  "autoScroll (started p opts r s) = autoScroll s"
  "subscribeToResponse (started p opts r s) = subscribeToResponse s"
  "model (started p opts r s) = model s"
  "useGpt3 (started p opts r s) = useGpt3 s"
  "apiGpt3 (started p opts r s) = apiGpt3 s"
  "apiGpt35 (started p opts r s) = apiGpt35 s"
  "conversationId (started p opts r s) = conversationId s"
  "messageId (started p opts r s) = messageId s"
  "currentMessageId (started p opts r s) = r"
  "response (started p opts r s) = []"
  "inProgress (started p opts r s) = True"
  "invocations (effects (started p opts r s)) = invocations (effects s)"
  "sent (effects (started p opts r s)) = sent (effects s) @
     [ShowInProgress True (Some (useGpt3 s)), AddQuestion p (opt_code opts) (autoScroll s)]"
  by (simp_all add: started_def emit_fields sendMessage_fields sendMessage_sent
      sendMessage_invocations sent_append invocations_append)

lemma grows_started: "grows s (started p opts r s)"
proof -
  let ?a = "emit (if webView s then ShowView else FocusView) (s\<lparr>response := []\<rparr>)"
  let ?b = "sendMessage (ShowInProgress True (Some (useGpt3 s))) False
              (?a\<lparr>inProgress := True, abortController := Some False\<rparr>)"
  have "grows s (s\<lparr>response := []\<rparr>)" by (rule grows_upd)
  also have "grows (s\<lparr>response := []\<rparr>) ?a" by (rule grows_emit)
  also have "grows ?a (?a\<lparr>inProgress := True, abortController := Some False\<rparr>)"
    by (simp add: grows_def effectsSince_def)
  also have "grows (?a\<lparr>inProgress := True, abortController := Some False\<rparr>) ?b"
    by (rule grows_sendMessage)
  also have "grows ?b (?b\<lparr>currentMessageId := r\<rparr>)"
    by (simp add: grows_def effectsSince_def)
  also have "grows (?b\<lparr>currentMessageId := r\<rparr>) (started p opts r s)"
    unfolding started_def by (rule grows_sendMessage)
  finally show ?thesis .
qed

lemma prepareConversation_fields:
  "webView (snd (prepareConversation mc h s)) = webView s"
  "autoScroll (snd (prepareConversation mc h s)) = autoScroll s"
  "subscribeToResponse (snd (prepareConversation mc h s)) = subscribeToResponse s"
  "model (snd (prepareConversation mc h s)) = model s"
  "useGpt3 (snd (prepareConversation mc h s)) = useGpt3 s"
  "conversationId (snd (prepareConversation mc h s)) = conversationId s"
  "messageId (snd (prepareConversation mc h s)) = messageId s"
  "inProgress (snd (prepareConversation mc h s)) = inProgress s"
  "invocations (effects (snd (prepareConversation mc h s))) = invocations (effects s)"
  by (simp_all add: prepareConversation_def Let_def emit_fields sendMessage_fields
      sendMessage_invocations invocations_append)

lemma prepareConversation_sent:
  "fst (prepareConversation mc h s) \<Longrightarrow>
   sent (effects (snd (prepareConversation mc h s))) =
     sent (effects s) @ [LoginSuccessful (useAutoLogin s)]"
  by (auto simp add: prepareConversation_def Let_def sendMessage_fields sendMessage_sent
      split: if_splits)

lemma prepareConversation_ready:
  "fst (prepareConversation mc h s) \<Longrightarrow> useGpt3 s \<Longrightarrow>
   (if isGpt35Model s then apiGpt35 (snd (prepareConversation mc h s)) \<noteq> None
    else apiGpt3 (snd (prepareConversation mc h s)) \<noteq> None)"
  by (auto simp add: prepareConversation_def Let_def sendMessage_fields split: if_splits)

lemma prepareConversation_counted:
  "fst (prepareConversation mc h (counted s)) =
   fst (prepareConversation mc h s)"
  by (simp add: prepareConversation_def Let_def counted_def logEvent_def emit_def
      isGpt35Model_def)

lemma grows_prepareConversation: "grows s (snd (prepareConversation mc h s))"
proof -
  have a: "grows s (emit AskForApiKey s)" by (rule grows_emit)
  have b: "grows s (sendMessage m True (s\<lparr>apiGpt35 := c\<rparr>))" for m c
  proof -
    have "grows s (s\<lparr>apiGpt35 := c\<rparr>)" by (simp add: grows_def effectsSince_def)
    also have "grows (s\<lparr>apiGpt35 := c\<rparr>) (sendMessage m True (s\<lparr>apiGpt35 := c\<rparr>))"
      by (rule grows_sendMessage)
    finally show ?thesis .
  qed
  have c: "grows s (sendMessage m True (s\<lparr>apiGpt3 := c\<rparr>))" for m c
  proof -
    have "grows s (s\<lparr>apiGpt3 := c\<rparr>)" by (simp add: grows_def effectsSince_def)
    also have "grows (s\<lparr>apiGpt3 := c\<rparr>) (sendMessage m True (s\<lparr>apiGpt3 := c\<rparr>))"
      by (rule grows_sendMessage)
    finally show ?thesis .
  qed
  show ?thesis
    by (simp add: prepareConversation_def Let_def a b c grows_refl grows_sendMessage)
qed

lemma finallyBlock_fields:
  "inProgress (finallyBlock s) = False"
  "conversationId (finallyBlock s) = conversationId s"
  "messageId (finallyBlock s) = messageId s"
  "invocations (effects (finallyBlock s)) = invocations (effects s)"
  "sent (effects (finallyBlock s)) = sent (effects s) @ [ShowInProgress False None]"
  by (simp_all add: finallyBlock_def Let_def sendMessage_fields sendMessage_sent
      sendMessage_invocations)

lemma grows_finallyBlock: "grows s (finallyBlock s)"
proof -
  have "grows s (s\<lparr>inProgress := False\<rparr>)" by (rule grows_upd)
  also have "grows (s\<lparr>inProgress := False\<rparr>) (finallyBlock s)"
    unfolding finallyBlock_def Let_def by (rule grows_sendMessage)
  finally show ?thesis .
qed

lemma respond_fields:
  "conversationId (respond opts rim s) = conversationId s"
  "messageId (respond opts rim s) = messageId s"
  "invocations (effects (respond opts rim s)) = invocations (effects s)"
  "sent (effects (respond opts rim s)) = sent (effects s) @
     [AddResponse (finalText opts s) True (Some (currentMessageId s)) (autoScroll s) rim]"
  by (simp_all add: respond_def finalText_def answerText_def Let_def emit_fields
      sendMessage_fields sendMessage_sent sendMessage_invocations sent_append
      invocations_append split: option.splits)

lemma grows_respond: "grows s (respond opts rim s)"
proof -
  define s1 where "s1 = (case opt_previousAnswer opts of None \<Rightarrow> s
                | Some previousAnswer \<Rightarrow> s\<lparr>response := previousAnswer @ response s\<rparr>)"
  define s2 where "s2 = (if hasContinuation (response s1)
                then emit OfferContinuation (s1\<lparr>response := response s1 @ closingFence\<rparr>)
                else s1)"
  define s3 where "s3 = sendMessage (AddResponse (response s2) True (Some (currentMessageId s2))
                 (autoScroll s2) rim) False s2"
  have "grows s s1"
    by (simp add: s1_def grows_refl grows_upd split: option.splits)
  also have "grows s1 s2"
  proof (cases "hasContinuation (response s1)")
    case True
    have "grows s1 (s1\<lparr>response := response s1 @ closingFence\<rparr>)" by (rule grows_upd)
    also have "grows (s1\<lparr>response := response s1 @ closingFence\<rparr>) s2"
      using True by (simp add: s2_def grows_emit)
    finally show ?thesis .
  next
    case False
    then show ?thesis by (simp add: s2_def grows_refl)
  qed
  also have "grows s2 s3" unfolding s3_def by (rule grows_sendMessage)
  also have "grows s3 (if subscribeToResponse s3 then emit NotifyAnswered s3 else s3)"
    by (simp add: grows_refl grows_emit)
  finally show ?thesis
    unfolding respond_def Let_def s1_def s2_def s3_def .
qed

lemma handleError_fields:
  "conversationId (handleError e s) = conversationId s"
  "messageId (handleError e s) = messageId s"
  "invocations (effects (handleError e s)) = invocations (effects s)"
  by (simp_all add: handleError_def Let_def logError_def emit_fields sendMessage_fields
      sendMessage_invocations invocations_append split: option.splits prod.splits if_splits)

lemma handleError_sent:
  "\<exists>t a. sent (effects (handleError (Some e) s)) =
     sent (effects s) @ [AddError t a (autoScroll s)]"
  by (simp add: handleError_def Let_def logError_def emit_fields sendMessage_fields
      sendMessage_sent sent_append)

lemma handleError_sent_nullish: "sent (effects (handleError None s)) = sent (effects s)"
  by (simp add: handleError_def logError_def emit_fields sent_append)

lemma grows_handleError: "grows s (handleError e s)"
proof -
  define s1 where "s1 = logError ''api-request-failed'' s"
  have a: "grows s s1" by (simp add: s1_def logError_def grows_emit)
  have b: "grows s (sendMessage m False s1)" for m
    using a grows_sendMessage [of s1 m False] by (rule grows_trans)
  have "grows s1 (emit OfferClearAndRetry s1)" by (rule grows_emit)
  with a have "grows s (emit OfferClearAndRetry s1)" by (rule grows_trans)
  then have c: "grows s (sendMessage m False (emit OfferClearAndRetry s1))" for m
    using grows_sendMessage [of "emit OfferClearAndRetry s1" m False] by (rule grows_trans)
  have d: "grows s (emit CatchThrows s1)"
    using a grows_emit [of s1 CatchThrows] by (rule grows_trans)
  show ?thesis
    by (cases e) (simp_all add: handleError_def Let_def b c d flip: s1_def)
qed

subsection \<open>The call of the client and its outcome\<close>

lemma callClient_ready:
  assumes "useGpt3 s"
    and "if isGpt35Model s then apiGpt35 s \<noteq> None else apiGpt3 s \<noteq> None"
  shows "callClient q rim run s =
    (case completion run of
       Throws e \<Rightarrow> Inl (e, awaited q rim run s)
     | Resolves r \<Rightarrow>
         Inr ((awaited q rim run s)\<lparr>response := res_text r,
                conversationId := (if isGpt35Model s then res_id r else res_conversationId r),
                messageId := res_parentMessageId r\<rparr>))"
  using assms
  by (cases "completion run")
     (simp_all add: callClient_def awaited_def pending_def version_def Let_def split: if_splits)

lemma awaited_fields:
  "autoScroll (awaited q rim run s) = autoScroll s"
  "model (awaited q rim run s) = model s"
  "conversationId (awaited q rim run s) = conversationId s"
  "messageId (awaited q rim run s) = messageId s"
  "currentMessageId (awaited q rim run s) = currentMessageId s"
  "invocations (effects (awaited q rim run s)) = invocations (effects s) @ [version s]"
  by (simp_all add: awaited_def pending_def version_def runPending_fields emit_fields invocations_append)


lemma awaited_partial:
  "map r_value (filter partialResponse (sent (effects (awaited q rim run s)))) =
     map r_value (filter partialResponse (sent (effects s))) @ progressTexts (during run)"
  by (simp add: awaited_def pending_def runPending_partial emit_fields sent_append)

lemma awaited_markdown:
  assumes "isCodexModel s = (\<not> rim)"
  shows "filter (otherMarkdown rim)
           (sent (effects (awaited q rim run s))) =
         filter (otherMarkdown rim) (sent (effects s))"
proof -
  let ?s1 = "emit (if isGpt35Model s then InvokeGpt35 q (conversationId s) (messageId s)
              else InvokeGpt3 q (conversationId s) (messageId s)) s"
  have "isCodexModel ?s1 = (\<not> rim)"
    using assms by (simp add: isCodexModel_def emit_fields)
  from runPending_markdown [OF this] show ?thesis
    by (simp add: awaited_def pending_def emit_fields sent_append)
qed

lemma grows_awaited: "grows s (awaited q rim run s)"
proof -
  let ?s1 = "emit (if isGpt35Model s then InvokeGpt35 q (conversationId s) (messageId s)
              else InvokeGpt3 q (conversationId s) (messageId s)) s"
  have "grows s ?s1" by (rule grows_emit)
  also have "grows ?s1 (awaited q rim run s)"
    unfolding awaited_def pending_def by (rule grows_runPending)
  finally show ?thesis .
qed

lemma settle_ready:
  assumes "useGpt3 s"
    and "if isGpt35Model s then apiGpt35 s \<noteq> None else apiGpt3 s \<noteq> None"
  shows "settle opts q rim run s =
    (case completion run of
       Throws e \<Rightarrow> handleError e (awaited q rim run s)
     | Resolves r \<Rightarrow>
         respond opts rim ((awaited q rim run s)\<lparr>response := res_text r,
           conversationId := (if isGpt35Model s then res_id r else res_conversationId r),
           messageId := res_parentMessageId r\<rparr>))"
  by (simp add: settle_def callClient_ready [OF assms] split: completion.splits)


lemma handleError_other:
  "filter partialResponse (sent (effects (handleError e s))) =
     filter partialResponse (sent (effects s))"
  "filter (otherMarkdown rim) (sent (effects (handleError e s))) =
     filter (otherMarkdown rim) (sent (effects s))"
proof -
  show "filter partialResponse (sent (effects (handleError e s))) =
     filter partialResponse (sent (effects s))"
  proof (cases e)
    case None
    then show ?thesis by (simp add: handleError_sent_nullish)
  next
    case (Some x)
    obtain t a where
      "sent (effects (handleError (Some x) s)) = sent (effects s) @ [AddError t a (autoScroll s)]"
      using handleError_sent by blast
    with Some show ?thesis by simp
  qed
  show "filter (otherMarkdown rim) (sent (effects (handleError e s))) =
     filter (otherMarkdown rim) (sent (effects s))"
  proof (cases e)
    case None
    then show ?thesis by (simp add: handleError_sent_nullish)
  next
    case (Some x)
    obtain t a where
      "sent (effects (handleError (Some x) s)) = sent (effects s) @ [AddError t a (autoScroll s)]"
      using handleError_sent by blast
    with Some show ?thesis by (simp add: otherMarkdown_simps)
  qed
qed

lemma settle_partial:
  assumes "useGpt3 s"
    and "if isGpt35Model s then apiGpt35 s \<noteq> None else apiGpt3 s \<noteq> None"
  shows "map r_value (filter partialResponse (sent (effects (settle opts q rim run s)))) =
     map r_value (filter partialResponse (sent (effects s))) @ progressTexts (during run)"
proof (cases "completion run")
  case (Resolves r)
  then show ?thesis
    by (simp add: settle_ready [OF assms] respond_fields awaited_partial)
next
  case (Throws e)
  then show ?thesis
    by (simp add: settle_ready [OF assms] handleError_other awaited_partial)
qed

lemma settle_markdown:
  assumes "useGpt3 s"
    and "if isGpt35Model s then apiGpt35 s \<noteq> None else apiGpt3 s \<noteq> None"
    and "isCodexModel s = (\<not> rim)"
  shows "filter (otherMarkdown rim)
           (sent (effects (settle opts q rim run s))) =
         filter (otherMarkdown rim) (sent (effects s))"
proof (cases "completion run")
  case (Resolves r)
  then show ?thesis
    by (simp add: settle_ready [OF assms(1,2)] respond_fields awaited_markdown [OF assms(3)]
        otherMarkdown_simps)
next
  case (Throws e)
  then show ?thesis
    by (simp add: settle_ready [OF assms(1,2)] handleError_other
        awaited_markdown [OF assms(3)])
qed

lemma settle_invocations:
  assumes "useGpt3 s"
    and "if isGpt35Model s then apiGpt35 s \<noteq> None else apiGpt3 s \<noteq> None"
  shows "invocations (effects (settle opts q rim run s)) = invocations (effects s) @ [version s]"
  by (cases "completion run")
     (simp_all add: settle_ready [OF assms] respond_fields handleError_fields awaited_fields)

lemma callClient_cases:
  "callClient q rim run s = Inr s \<or>
   callClient q rim run s =
     (case completion run of
        Throws e \<Rightarrow> Inl (e, awaited q rim run s)
      | Resolves r \<Rightarrow>
          Inr ((awaited q rim run s)\<lparr>response := res_text r,
                 conversationId := (if isGpt35Model s then res_id r else res_conversationId r),
                 messageId := res_parentMessageId r\<rparr>))"
  by (cases "completion run")
     (simp_all add: callClient_def awaited_def pending_def version_def Let_def)

lemma grows_settle: "grows s (settle opts q rim run s)"
proof -
  have a: "grows s (respond opts rim s)" by (rule grows_respond)
  have b: "grows s (handleError e (awaited q rim run s))" for e
    using grows_awaited grows_handleError by (rule grows_trans)
  have c: "grows s (respond opts rim ((awaited q rim run s)\<lparr>response := t,
             conversationId := c, messageId := m\<rparr>))" for t c m
  proof -
    let ?a = "awaited q rim run s"
    have "grows s ?a" by (rule grows_awaited)
    also have "grows ?a (?a\<lparr>response := t, conversationId := c, messageId := m\<rparr>)"
      by (simp add: grows_def effectsSince_def)
    also have "grows (?a\<lparr>response := t, conversationId := c, messageId := m\<rparr>)
        (respond opts rim (?a\<lparr>response := t, conversationId := c, messageId := m\<rparr>))"
      by (rule grows_respond)
    finally show ?thesis .
  qed
  from callClient_cases [of q rim run s] show ?thesis
    by (auto simp add: settle_def a b c split: completion.splits)
qed

lemma settle_throws:
  assumes "completion run = Throws e"
  shows "conversationId (settle opts q rim run s) = conversationId s"
    and "messageId (settle opts q rim run s) = messageId s"
  using callClient_cases [of q rim run s] assms
  by (auto simp add: settle_def respond_fields handleError_fields awaited_fields)

subsection \<open>The whole request\<close>

lemma logged_fields:
  "model (counted s) = model s"
  "useGpt3 (counted s) = useGpt3 s"
  "useAutoLogin (counted s) = useAutoLogin s"
  "autoScroll (counted s) = autoScroll s"
  "conversationId (counted s) = conversationId s"
  "messageId (counted s) = messageId s"
  "sent (effects (counted s)) = sent (effects s)"
  "invocations (effects (counted s)) = invocations (effects s)"
  by (simp_all add: counted_def logEvent_def emit_def sent_append invocations_append)

lemma grows_logged: "grows s (counted s)"
proof -
  have "grows s (s\<lparr>questionCounter := questionCounter s + 1\<rparr>)"
    by (simp add: grows_def effectsSince_def)
  also have "grows (s\<lparr>questionCounter := questionCounter s + 1\<rparr>) (counted s)"
    unfolding counted_def by (rule grows_logEvent)
  finally show ?thesis .
qed

lemma sendApiRequest_entered:
  assumes "\<not> inProgress s" and "fst (prepareConversation False h s)"
  shows "sendApiRequest prompt opts h randomId run s =
     finallyBlock (settle opts (processQuestion prompt (opt_code opts) (opt_language opts))
       (\<not> isCodexModel s) run (entered prompt opts h randomId s))"
proof -
  let ?s2 = "counted s"
  have ready: "fst (prepareConversation False h ?s2)"
    using assms(2) by (simp only: prepareConversation_counted)
  have "isCodexModel (snd (prepareConversation False h ?s2)) = isCodexModel s"
    by (simp add: isCodexModel_def prepareConversation_fields logged_fields)
  with ready show ?thesis
    by (simp add: sendApiRequest_accepted [OF assms(1)] Let_def settle_def entered_def
        cong: sum.case_cong)
qed

lemma entered_fields:
  "model (entered prompt opts h r s) = model s"
  "useGpt3 (entered prompt opts h r s) = useGpt3 s"
  "autoScroll (entered prompt opts h r s) = autoScroll s"
  "conversationId (entered prompt opts h r s) = conversationId s"
  "messageId (entered prompt opts h r s) = messageId s"
  "currentMessageId (entered prompt opts h r s) = r"
  "response (entered prompt opts h r s) = []"
  "inProgress (entered prompt opts h r s) = True"
  "invocations (effects (entered prompt opts h r s)) = invocations (effects s)"
  by (simp_all add: entered_def started_fields prepareConversation_fields logged_fields)

lemma entered_sent:
  "fst (prepareConversation False h s) \<Longrightarrow>
   sent (effects (entered prompt opts h r s)) = sent (effects s) @
     [LoginSuccessful (useAutoLogin s), ShowInProgress True (Some (useGpt3 s)),
      AddQuestion prompt (opt_code opts) (autoScroll s)]"
  by (simp add: entered_def started_fields prepareConversation_fields logged_fields
      prepareConversation_sent prepareConversation_counted)

lemma entered_ready:
  assumes "fst (prepareConversation False h s)" and "useGpt3 s"
  shows "if isGpt35Model (entered prompt opts h r s)
         then apiGpt35 (entered prompt opts h r s) \<noteq> None
         else apiGpt3 (entered prompt opts h r s) \<noteq> None"
proof -
  let ?s2 = "counted s"
  have "fst (prepareConversation False h ?s2)"
    using assms(1) by (simp only: prepareConversation_counted)
  moreover have "useGpt3 ?s2" using assms(2) by (simp add: logged_fields)
  ultimately have "if isGpt35Model ?s2
      then apiGpt35 (snd (prepareConversation False h ?s2)) \<noteq> None
      else apiGpt3 (snd (prepareConversation False h ?s2)) \<noteq> None"
    by (rule prepareConversation_ready)
  moreover have "isGpt35Model (entered prompt opts h r s) = isGpt35Model ?s2"
    by (simp add: isGpt35Model_def entered_fields logged_fields)
  ultimately show ?thesis
    by (simp add: entered_def started_fields)
qed

lemma grows_entered: "grows s (entered prompt opts h r s)"
proof -
  let ?s2 = "counted s"
  have "grows s ?s2" by (rule grows_logged)
  also have "grows ?s2 (snd (prepareConversation False h ?s2))"
    by (rule grows_prepareConversation)
  also have "grows (snd (prepareConversation False h ?s2)) (entered prompt opts h r s)"
    unfolding entered_def by (rule grows_started)
  finally show ?thesis .
qed

lemma grows_sendApiRequest: "grows s (sendApiRequest prompt opts h r run s)"
proof (cases "inProgress s")
  case True
  then show ?thesis by (simp add: sendApiRequest_def grows_refl)
next
  case False
  let ?s2 = "counted s"
  show ?thesis
  proof (cases "fst (prepareConversation False h s)")
    case True
    let ?q = "processQuestion prompt (opt_code opts) (opt_language opts)"
    let ?e = "entered prompt opts h r s"
    have "grows s ?e" by (rule grows_entered)
    also have "grows ?e (settle opts ?q (\<not> isCodexModel s) run ?e)" by (rule grows_settle)
    also have "grows (settle opts ?q (\<not> isCodexModel s) run ?e)
        (finallyBlock (settle opts ?q (\<not> isCodexModel s) run ?e))"
      by (rule grows_finallyBlock)
    finally show ?thesis
      by (simp only: sendApiRequest_entered [OF False True])
  next
    case no: False
    then have "\<not> fst (prepareConversation False h ?s2)"
      by (simp add: prepareConversation_counted)
    then have "sendApiRequest prompt opts h r run s = snd (prepareConversation False h ?s2)"
      using False by (simp add: sendApiRequest_accepted Let_def)
    moreover have "grows s (snd (prepareConversation False h ?s2))"
      using grows_logged grows_prepareConversation by (rule grows_trans)
    ultimately show ?thesis by simp
  qed
qed

lemma sentSince_grows: "grows s s' \<Longrightarrow> sent (effects s') = sent (effects s) @ sentSince s s'"
  unfolding grows_def sentSince_def by (metis sent_append)

lemma invocationsSince_grows:
  "grows s s' \<Longrightarrow>
   invocations (effects s') = invocations (effects s) @ invocations (effectsSince s s')"
  unfolding grows_def by (metis invocations_append)

lemma sendApiRequest_through_pendingCall:
  assumes "\<not> inProgress s" and "fst (prepareConversation False h s)" and "useGpt3 s"
  shows "sendApiRequest prompt opts h randomId run s =
    finallyBlock
      (case completion run of
         Throws e \<Rightarrow> handleError e (pendingCall prompt opts h randomId (during run) s)
       | Resolves r \<Rightarrow>
           respond opts (\<not> isCodexModel s)
             ((pendingCall prompt opts h randomId (during run) s)\<lparr>response := res_text r,
                conversationId := (if isGpt35Model s then res_id r else res_conversationId r),
                messageId := res_parentMessageId r\<rparr>))"
proof -
  let ?e = "entered prompt opts h randomId s"
  have u: "useGpt3 ?e" using assms(3) by (simp add: entered_fields)
  have r: "if isGpt35Model ?e then apiGpt35 ?e \<noteq> None else apiGpt3 ?e \<noteq> None"
    by (rule entered_ready [OF assms(2,3)])
  have g: "isGpt35Model ?e = isGpt35Model s" by (simp add: isGpt35Model_def entered_fields)
  show ?thesis
    by (simp add: sendApiRequest_entered [OF assms(1,2)] settle_ready [OF u r] g
        pendingCall_def awaited_def cong: completion.case_cong)
qed

lemma runPending_append:
  "runPending v rim (es @ es') s = runPending v rim es' (runPending v rim es s)"
  by (induction es arbitrary: s) simp_all

lemma pendingCall_append:
  "pendingCall prompt opts h randomId (es @ es') s =
     runPending (version (entered prompt opts h randomId s)) (\<not> isCodexModel s) es'
       (pendingCall prompt opts h randomId es s)"
  by (simp add: pendingCall_def pending_def runPending_append)


lemma startsWith_code_not_gpt: "startsWith m ''code-'' \<Longrightarrow> \<not> startsWith m ''gpt-''"
  by (cases m) (auto simp add: startsWith_def)

lemma request_routed:
  assumes "\<not> inProgress s" and "fst (prepareConversation False h s)" and "useGpt3 s"
  shows "invocations (effectsSince s (sendApiRequest prompt opts h randomId run s))
           = [if isGpt35Model s then Gpt35 else Gpt3]"
    and "\<forall>x \<in> set (sentSince s (sendApiRequest prompt opts h randomId run s)).
           isAddResponse x \<longrightarrow> r_responseInMarkdown x = (\<not> isCodexModel s)"
proof -
  let ?s' = "sendApiRequest prompt opts h randomId run s"
  let ?e = "entered prompt opts h randomId s"
  let ?rim = "\<not> isCodexModel s"
  have shape: "?s' = finallyBlock (settle opts
      (processQuestion prompt (opt_code opts) (opt_language opts)) ?rim run ?e)"
    by (rule sendApiRequest_entered [OF assms(1,2)])
  have u: "useGpt3 ?e" using assms(3) by (simp add: entered_fields)
  have r: "if isGpt35Model ?e then apiGpt35 ?e \<noteq> None else apiGpt3 ?e \<noteq> None"
    by (rule entered_ready [OF assms(2,3)])
  have c: "isCodexModel ?e = (\<not> ?rim)" by (simp add: isCodexModel_def entered_fields)
  have v: "version ?e = (if isGpt35Model s then Gpt35 else Gpt3)"
    by (simp add: version_def isGpt35Model_def entered_fields)
  have "invocations (effects ?s') = invocations (effects s) @ [version ?e]"
    by (simp add: shape finallyBlock_fields settle_invocations [OF u r] entered_fields)
  moreover have "invocations (effects ?s')
      = invocations (effects s) @ invocations (effectsSince s ?s')"
    by (rule invocationsSince_grows [OF grows_sendApiRequest])
  ultimately show "invocations (effectsSince s ?s') = [if isGpt35Model s then Gpt35 else Gpt3]"
    using v by simp
  have "filter (otherMarkdown ?rim) (sent (effects ?s'))
      = filter (otherMarkdown ?rim) (sent (effects s))"
    by (simp add: shape finallyBlock_fields settle_markdown [OF u r c]
        entered_sent [OF assms(2)] otherMarkdown_simps)
  moreover have "sent (effects ?s') = sent (effects s) @ sentSince s ?s'"
    by (rule sentSince_grows [OF grows_sendApiRequest])
  ultimately have "filter (otherMarkdown ?rim) (sentSince s ?s') = []"
    by simp
  then show "\<forall>x \<in> set (sentSince s ?s').
      isAddResponse x \<longrightarrow> r_responseInMarkdown x = (\<not> isCodexModel s)"
    by (auto simp add: filter_empty_conv otherMarkdown_def)
qed

subsection \<open>Clearing the session, the left-over message, the fence count\<close>

lemma sentSinceI:
  "grows s s' \<Longrightarrow> sent (effects s') = sent (effects s) @ new \<Longrightarrow> sentSince s s' = new"
  using sentSince_grows [of s s'] by simp

lemma clearSession_sent:
  "sent (effects (clearSession s)) = sent (effects s) @
     [ShowInProgress False None,
      AddResponse (response s) True (Some (currentMessageId s)) (autoScroll s) (\<not> isCodexModel s)]"
  by (simp add: clearSession_def Let_def logEvent_def emit_def stopGenerating_sent sent_append)

lemma grows_clearSession: "grows s (clearSession s)"
proof -
  let ?s1 = "stopGenerating s"
  let ?s4 = "?s1\<lparr>apiGpt3 := None, messageId := None, conversationId := None\<rparr>"
  have "grows s ?s1" by (rule grows_stopGenerating)
  also have "grows ?s1 ?s4" by (simp add: grows_def effectsSince_def)
  also have "grows ?s4 (logEvent ''cleared-session'' ?s4)" by (rule grows_logEvent)
  finally show ?thesis by (simp add: clearSession_def Let_def)
qed

lemma clearSession_since:
  assumes "effects s1 = effects s" and "response s1 = response s"
    and "currentMessageId s1 = currentMessageId s" and "autoScroll s1 = autoScroll s"
    and "model s1 = model s"
  shows "sentSince s (clearSession s1) =
     [ShowInProgress False None,
      AddResponse (response s) True (Some (currentMessageId s)) (autoScroll s) (\<not> isCodexModel s)]"
proof -
  have "sentSince s (clearSession s1) = sentSince s1 (clearSession s1)"
    using assms(1) by (simp add: sentSince_def effectsSince_def)
  also have "\<dots> = [ShowInProgress False None,
      AddResponse (response s1) True (Some (currentMessageId s1)) (autoScroll s1)
        (\<not> isCodexModel s1)]"
    by (rule sentSinceI [OF grows_clearSession clearSession_sent])
  finally show ?thesis
    using assms by (simp add: isCodexModel_def)
qed

lemma publishAll_detached:
  "\<not> webView s \<Longrightarrow>
   \<not> webView (publishAll ms s)
   \<and> delivered (effects (publishAll ms s)) = delivered (effects s)
   \<and> leftOverMessage (publishAll ms s) =
      (let kept = map fst (filter (\<lambda>(m, ignored). \<not> ignored) ms)
       in if kept = [] then leftOverMessage s else Some (last kept))"
  by (induction ms s rule: publishAll.induct)
     (simp_all add: sendMessage_def emit_def delivered_append Let_def)

lemma grows_publishAll: "grows s (publishAll ms s)"
proof (induction ms s rule: publishAll.induct)
  case (1 s)
  show ?case by (simp add: grows_refl)
next
  case (2 m i ms s)
  have "grows s (sendMessage m i s)" by (rule grows_sendMessage)
  also have "grows (sendMessage m i s) (publishAll ms (sendMessage m i s))" by (rule "2.IH")
  finally show ?case by simp
qed

lemma resolveWebviewView_delivered:
  "\<not> webView s \<Longrightarrow>
   delivered (effects (resolveWebviewView s)) = delivered (effects s) @
     (case leftOverMessage s of None \<Rightarrow> [] | Some m \<Rightarrow> [m])"
  "leftOverMessage (resolveWebviewView s) = None"
  by (simp_all add: resolveWebviewView_def Let_def sendMessage_def emit_def delivered_append
      split: option.splits)

lemma grows_resolveWebviewView: "grows s (resolveWebviewView s)"
  by (rule growsI [where new = "effectsSince s (resolveWebviewView s)"])
     (simp add: resolveWebviewView_def Let_def sendMessage_def emit_def effectsSince_def
      split: option.splits)

lemma splitOn_length: "length (splitOn sep cur t) = Suc (occurrences sep t)"
  by (induction sep cur t rule: splitOn.induct) simp_all

lemma hasContinuation_even: "hasContinuation r = even (occurrences fence r)"
  by (simp add: hasContinuation_def split_str_def splitOn_length fence_def even_iff_mod_2_eq_zero
      mod_Suc)

lemma clearSession_fields:
  "inProgress (clearSession s) = False"
  "apiGpt3 (clearSession s) = None"
  "conversationId (clearSession s) = None"
  "messageId (clearSession s) = None"
  "apiGpt35 (clearSession s) = apiGpt35 s"
  by (simp_all add: clearSession_def Let_def logEvent_def emit_fields stopGenerating_fields)

subsection \<open>Facts of the concrete providers\<close>

lemma attached_gpt4:
  "\<not> inProgress (attached ''gpt-4'')"
  "fst (prepareConversation False (demoHost ''gpt-4'') (attached ''gpt-4''))"
  "useGpt3 (attached ''gpt-4'')"
  "model (attached ''gpt-4'') = Some ''gpt-4''"
  by code_simp+

lemma attached_codex:
  "\<not> inProgress (attached ''code-davinci-002'')"
  "fst (prepareConversation False (demoHost ''code-davinci-002'') (attached ''code-davinci-002''))"
  "useGpt3 (attached ''code-davinci-002'')"
  "model (attached ''code-davinci-002'') = Some ''code-davinci-002''"
  by code_simp+


section \<open>The claims\<close>

text \<open>
  In the statements below, the messages a call publishes are the messages it hands to
  \<open>sendMessage\<close> (\<open>sentSince\<close>), whether a webview is attached or not; the messages
  that reach the webview are \<open>delivered\<close>.
\<close>

subsection \<open>C1: the offer to continue and the parity of the fence markers\<close>

text \<open>
  Claim C1: the offer to continue is made exactly when the number of triple-backtick fence
  markers of the response is odd; the text of one fence followed by \<open>code\<close> triggers the
  offer, the same text closed by a second fence does not.

  The code tests whether the number of pieces of \<open>split\<close> is odd, and the pieces are one
  more than the markers (\<open>hasContinuation_even\<close>): the offer is made exactly when the
  number of markers is even. At the two texts of the claim the provider does the opposite
  of what the claim says: with one fence there is no offer and the text is published as it
  is, with two fences the offer is made and the closing fence appended.
\<close>

theorem odd_fence_offer_inverted:
  "hasContinuation (fence @ ''code'') = False
   \<and> OfferContinuation \<notin> set (effectsSince (attached ''gpt-4'')
        (sendApiRequest ''hello'' (freeText None) (demoHost ''gpt-4'') ''request-1''
           (resolving [] (fence @ ''code'')) (attached ''gpt-4'')))
   \<and> filter terminal (sentSince (attached ''gpt-4'')
        (sendApiRequest ''hello'' (freeText None) (demoHost ''gpt-4'') ''request-1''
           (resolving [] (fence @ ''code'')) (attached ''gpt-4'')))
      = [AddResponse (fence @ ''code'') True (Some ''request-1'') True True]
   \<and> hasContinuation (fence @ ''code'' @ fence) = True
   \<and> OfferContinuation \<in> set (effectsSince (attached ''gpt-4'')
        (sendApiRequest ''hello'' (freeText None) (demoHost ''gpt-4'') ''request-1''
           (resolving [] (fence @ ''code'' @ fence)) (attached ''gpt-4'')))
   \<and> filter terminal (sentSince (attached ''gpt-4'')
        (sendApiRequest ''hello'' (freeText None) (demoHost ''gpt-4'') ''request-1''
           (resolving [] (fence @ ''code'' @ fence)) (attached ''gpt-4'')))
      = [AddResponse (fence @ ''code'' @ fence @ closingFence) True (Some ''request-1'')
           True True]"
  by code_simp

subsection \<open>C2: terminal messages of a request\<close>




subsection \<open>C3: clearing the session\<close>

text \<open>
  Claim C3: \<open>clearSession\<close> cancels the request in flight, discards the active API
  client, whichever of the two versions is in use, and resets both continuation
  identifiers.

  The code resets \<open>apiGpt3\<close> only (\<open>clearSession_fields\<close>: the request is stopped,
  \<open>apiGpt3\<close> and both identifiers are reset, \<open>apiGpt35\<close> is left as it is). A provider
  whose model is \<open>gpt-4\<close> and which has answered a question keeps its client through
  \<open>clearSession\<close>.
\<close>

theorem clearSession_keeps_gpt35_client:
  "isGpt35Model (answered ''gpt-4'')
   \<and> apiGpt35 (answered ''gpt-4'')
       = Some \<lparr>c_apiKey = ''sk-demo'', c_apiBaseUrl = None, c_organization = None,
               c_model = Some ''gpt-4''\<rparr>
   \<and> apiGpt35 (clearSession (answered ''gpt-4''))
       = Some \<lparr>c_apiKey = ''sk-demo'', c_apiBaseUrl = None, c_organization = None,
               c_model = Some ''gpt-4''\<rparr>"
  by code_simp

subsection \<open>C4: one request at a time\<close>




subsection \<open>C5: progress callbacks after a stop\<close>

text \<open>
  Claim C5 as stated (no partial response is published once cancellation is signalled)
  fails: the callback does not look at the abort controller. When the client calls
  \<open>onProgress\<close> after the stop, the partial text is published behind the terminal
  response of the stop.
\<close>

theorem partial_published_after_abort:
  "effectsSince (attached ''gpt-4'')
        (sendApiRequest ''hello'' (freeText None) (demoHost ''gpt-4'') ''request-1''
           (throwing [StopCommand, OnProgress ''late'']) (attached ''gpt-4''))
     = [LogEvent ''api-request-sent'', Delivered (LoginSuccessful False), ShowView,
        Delivered (ShowInProgress True (Some True)),
        Delivered (AddQuestion ''hello'' None True),
        InvokeGpt35 (''hello'' @ crlf) None None,
        Abort,
        Delivered (ShowInProgress False None),
        Delivered (AddResponse [] True (Some ''request-1'') True True),
        LogEvent ''stopped-generating'',
        Delivered (AddResponse ''late'' False None True True),
        LogError ''api-request-failed'',
        Delivered (AddError None (Some ''The user aborted a request.'') True),
        Delivered (ShowInProgress False None)]"
  by code_simp

text \<open>
  Claim C5, amended: every invocation of the progress callback publishes its partial text,
  whether or not a stop came before it: the partial responses a request publishes carry
  exactly the texts of the callback invocations of the run, in their order. So no partial
  response follows the cancellation only if the client calls back no more after it.
\<close>

theorem progress_callbacks_always_publish:
  assumes "\<not> inProgress s" and "fst (prepareConversation False h s)" and "useGpt3 s"
  shows "map r_value (filter partialResponse
           (sentSince s (sendApiRequest prompt opts h randomId run s)))
         = progressTexts (during run)"
proof -
  let ?s' = "sendApiRequest prompt opts h randomId run s"
  let ?e = "entered prompt opts h randomId s"
  have shape: "?s' = finallyBlock (settle opts
      (processQuestion prompt (opt_code opts) (opt_language opts)) (\<not> isCodexModel s) run ?e)"
    by (rule sendApiRequest_entered [OF assms(1,2)])
  have u: "useGpt3 ?e" using assms(3) by (simp add: entered_fields)
  have r: "if isGpt35Model ?e then apiGpt35 ?e \<noteq> None else apiGpt3 ?e \<noteq> None"
    by (rule entered_ready [OF assms(2,3)])
  have "map r_value (filter partialResponse (sent (effects ?s')))
      = map r_value (filter partialResponse (sent (effects s))) @ progressTexts (during run)"
    by (simp add: shape finallyBlock_fields settle_partial [OF u r] entered_sent [OF assms(2)])
  moreover have "sent (effects ?s') = sent (effects s) @ sentSince s ?s'"
    by (rule sentSince_grows [OF grows_sendApiRequest])
  ultimately show ?thesis by simp
qed

theorem progress_callbacks_always_publish_witness:
  "\<not> inProgress (attached ''gpt-4'')
   \<and> fst (prepareConversation False (demoHost ''gpt-4'') (attached ''gpt-4''))
   \<and> useGpt3 (attached ''gpt-4'')
   \<and> map r_value (filter partialResponse (sentSince (attached ''gpt-4'')
        (sendApiRequest ''hello'' (freeText None) (demoHost ''gpt-4'') ''request-1''
           (throwing [OnProgress ''Hi'', StopCommand, OnProgress ''Hi the''])
           (attached ''gpt-4'')))) = [''Hi'', ''Hi the'']"
  using progress_callbacks_always_publish [OF attached_gpt4(1-3), of "''hello''" "freeText None"
      "''request-1''" "throwing [OnProgress ''Hi'', StopCommand, OnProgress ''Hi the'']"]
    attached_gpt4
  by (simp add: throwing_def)

subsection \<open>C6: joining a continuation to the previous answer\<close>

text \<open>
  Claim C6: with the previous answer \<open>A\<close> and the final text \<open>B\<close> of the client, the
  text published at the end is \<open>AB\<close>, nothing between and nothing added.

  The two parts are joined without a separator, but \<open>AB\<close> has no fence marker, which
  the test of \<open>hasContinuation\<close> takes for an open code block (the defect of C1): the
  closing fence is appended and the published text is not \<open>AB\<close>.
\<close>

theorem continuation_join_gets_closing_fence:
  "filter terminal (sentSince (attached ''gpt-4'')
        (sendApiRequest ''Continue'' (freeText (Some ''A'')) (demoHost ''gpt-4'') ''request-2''
           (resolving [] ''B'') (attached ''gpt-4'')))
     = [AddResponse (''AB'' @ closingFence) True (Some ''request-2'') True True]
   \<and> ''AB'' @ closingFence \<noteq> ''AB''"
  by code_simp

subsection \<open>C7: the left-over message\<close>

text \<open>
  Claim C7 as stated (of every sequence of messages published without a webview, the most
  recent one is retained) fails: a message sent with \<open>ignoreMessageIfNullWebView\<close>, as
  \<open>loginSuccessful\<close> is, is dropped at once, and the message retained before it stays.
\<close>

theorem ignored_message_is_not_retained:
  "\<not> webView (detached ''gpt-4'')
   \<and> delivered (effectsSince (detached ''gpt-4'')
        (resolveWebviewView
           (publishAll [(AddQuestion ''M1'' None True, False), (LoginSuccessful False, True)]
              (detached ''gpt-4''))))
     = [AddQuestion ''M1'' None True]"
  by code_simp

text \<open>
  Claim C7, amended: of every sequence of calls of \<open>sendMessage\<close> made while no webview
  is attached, the most recent message sent without \<open>ignoreMessageIfNullWebView\<close> is
  the one retained; the next attachment delivers exactly it and empties the buffer. All
  earlier messages and all messages sent with the flag are dropped. (With no message sent
  without the flag, the message retained before the sequence is delivered, if there is
  one.) In particular \<open>M1\<close> then \<open>M2\<close>, both without the flag, delivers only \<open>M2\<close>.
\<close>

theorem left_over_message_buffer:
  assumes "\<not> webView s"
  shows "delivered (effectsSince s (resolveWebviewView (publishAll ms s))) =
      (let kept = map fst (filter (\<lambda>(m, ignored). \<not> ignored) ms)
       in if kept = [] then (case leftOverMessage s of None \<Rightarrow> [] | Some m \<Rightarrow> [m])
          else [last kept])
    \<and> leftOverMessage (resolveWebviewView (publishAll ms s)) = None"
proof -
  let ?p = "publishAll ms s"
  let ?r = "resolveWebviewView ?p"
  have "grows s ?r"
    using grows_publishAll grows_resolveWebviewView by (rule grows_trans)
  then have "delivered (effects ?r) = delivered (effects s) @ delivered (effectsSince s ?r)"
    unfolding grows_def by (metis delivered_append)
  moreover have "delivered (effects ?r) = delivered (effects s) @
      (case leftOverMessage ?p of None \<Rightarrow> [] | Some m \<Rightarrow> [m])"
    using publishAll_detached [OF assms, of ms] by (simp add: resolveWebviewView_delivered)
  ultimately have "delivered (effectsSince s ?r) =
      (case leftOverMessage ?p of None \<Rightarrow> [] | Some m \<Rightarrow> [m])"
    by simp
  then show ?thesis
    using publishAll_detached [OF assms, of ms]
    by (simp add: resolveWebviewView_delivered(2) Let_def)
qed

theorem left_over_message_buffer_witness:
  "\<not> webView (detached ''gpt-4'')
   \<and> delivered (effectsSince (detached ''gpt-4'')
        (resolveWebviewView
           (publishAll [(AddQuestion ''M1'' None True, False), (AddQuestion ''M2'' None True, False)]
              (detached ''gpt-4''))))
     = [AddQuestion ''M2'' None True]
   \<and> leftOverMessage (resolveWebviewView
           (publishAll [(AddQuestion ''M1'' None True, False), (AddQuestion ''M2'' None True, False)]
              (detached ''gpt-4''))) = None"
proof -
  have h: "\<not> webView (detached ''gpt-4'')" by code_simp
  from left_over_message_buffer [OF h, of "[(AddQuestion ''M1'' None True, False),
      (AddQuestion ''M2'' None True, False)]"]
  show ?thesis using h by simp
qed

subsection \<open>C8: routing by the class of the model\<close>

text \<open>
  Claim C8: a request under a model whose name starts with \<open>code-\<close> calls the legacy
  client (chatgpt-4.7.2, \<open>Gpt3\<close>) and every \<open>addResponse\<close> it publishes has
  \<open>responseInMarkdown\<close> false; under a model whose name starts with \<open>gpt-\<close> it calls the
  newer client (\<open>Gpt35\<close>) and every \<open>addResponse\<close> has \<open>responseInMarkdown\<close> true.
  The request is one that is accepted and obtains a client.
\<close>

theorem model_class_routing:
  assumes "\<not> inProgress s" and "fst (prepareConversation False h s)" and "useGpt3 s"
    and "model s = Some m"
  shows "(startsWith m ''code-'' \<longrightarrow>
            invocations (effectsSince s (sendApiRequest prompt opts h randomId run s)) = [Gpt3]
          \<and> (\<forall>x \<in> set (sentSince s (sendApiRequest prompt opts h randomId run s)).
               isAddResponse x \<longrightarrow> \<not> r_responseInMarkdown x))
       \<and> (startsWith m ''gpt-'' \<longrightarrow>
            invocations (effectsSince s (sendApiRequest prompt opts h randomId run s)) = [Gpt35]
          \<and> (\<forall>x \<in> set (sentSince s (sendApiRequest prompt opts h randomId run s)).
               isAddResponse x \<longrightarrow> r_responseInMarkdown x))"
proof (intro conjI impI)
  assume code: "startsWith m ''code-''"
  then have "\<not> isGpt35Model s" and "isCodexModel s"
    using assms(4) by (simp_all add: isGpt35Model_def isCodexModel_def startsWith_code_not_gpt)
  with request_routed [OF assms(1-3), of prompt opts randomId run]
  show "invocations (effectsSince s (sendApiRequest prompt opts h randomId run s)) = [Gpt3]"
    and "\<forall>x \<in> set (sentSince s (sendApiRequest prompt opts h randomId run s)).
           isAddResponse x \<longrightarrow> \<not> r_responseInMarkdown x"
    by simp_all
next
  assume gpt: "startsWith m ''gpt-''"
  then have "isGpt35Model s" and "\<not> isCodexModel s"
    using assms(4) startsWith_code_not_gpt [of m]
    by (auto simp add: isGpt35Model_def isCodexModel_def)
  with request_routed [OF assms(1-3), of prompt opts randomId run]
  show "invocations (effectsSince s (sendApiRequest prompt opts h randomId run s)) = [Gpt35]"
    and "\<forall>x \<in> set (sentSince s (sendApiRequest prompt opts h randomId run s)).
           isAddResponse x \<longrightarrow> r_responseInMarkdown x"
    by simp_all
qed

theorem model_class_routing_witness:
  "startsWith ''code-davinci-002'' ''code-''
   \<and> invocations (effectsSince (attached ''code-davinci-002'')
        (sendApiRequest ''hello'' (freeText None) (demoHost ''code-davinci-002'') ''request-1''
           (resolving [OnProgress ''x''] ''x = 1'') (attached ''code-davinci-002''))) = [Gpt3]
   \<and> map r_responseInMarkdown (filter isAddResponse
        (sentSince (attached ''code-davinci-002'')
          (sendApiRequest ''hello'' (freeText None) (demoHost ''code-davinci-002'')
             ''request-1'' (resolving [OnProgress ''x''] ''x = 1'')
             (attached ''code-davinci-002'')))) = [False, False]
   \<and> startsWith ''gpt-4'' ''gpt-''
   \<and> invocations (effectsSince (attached ''gpt-4'')
        (sendApiRequest ''hello'' (freeText None) (demoHost ''gpt-4'') ''request-1''
           (resolving [OnProgress ''x''] ''x = 1'') (attached ''gpt-4''))) = [Gpt35]
   \<and> map r_responseInMarkdown (filter isAddResponse
        (sentSince (attached ''gpt-4'')
          (sendApiRequest ''hello'' (freeText None) (demoHost ''gpt-4'') ''request-1''
             (resolving [OnProgress ''x''] ''x = 1'') (attached ''gpt-4'')))) = [True, True]"
proof -
  have c: "startsWith ''code-davinci-002'' ''code-''" by (simp add: startsWith_def)
  have g: "startsWith ''gpt-4'' ''gpt-''" by (simp add: startsWith_def)
  have m1: "map r_responseInMarkdown (filter isAddResponse
        (sentSince (attached ''code-davinci-002'')
          (sendApiRequest ''hello'' (freeText None) (demoHost ''code-davinci-002'')
             ''request-1'' (resolving [OnProgress ''x''] ''x = 1'')
             (attached ''code-davinci-002'')))) = [False, False]"
    by code_simp
  have m2: "map r_responseInMarkdown (filter isAddResponse
        (sentSince (attached ''gpt-4'')
          (sendApiRequest ''hello'' (freeText None) (demoHost ''gpt-4'') ''request-1''
             (resolving [OnProgress ''x''] ''x = 1'') (attached ''gpt-4'')))) = [True, True]"
    by code_simp
  from model_class_routing [OF attached_codex, of "''hello''" "freeText None"
      "''request-1''" "resolving [OnProgress ''x''] ''x = 1''"]
    model_class_routing [OF attached_gpt4, of "''hello''" "freeText None"
      "''request-1''" "resolving [OnProgress ''x''] ''x = 1''"] c g m1 m2
  show ?thesis by blast
qed

subsection \<open>C9: a failed request keeps the continuation identifiers\<close>

text \<open>
  Claim C9: when the call of the client throws, also after a stop, \<open>conversationId\<close> and
  \<open>messageId\<close> are afterwards what they were before the request.
\<close>

theorem failed_request_keeps_identifiers:
  assumes "completion run = Throws e"
  shows "conversationId (sendApiRequest prompt opts h randomId run s) = conversationId s
    \<and> messageId (sendApiRequest prompt opts h randomId run s) = messageId s"
proof (cases "inProgress s")
  case True
  then show ?thesis by (simp add: sendApiRequest_def)
next
  case False
  let ?s2 = "counted s"
  show ?thesis
  proof (cases "fst (prepareConversation False h s)")
    case True
    show ?thesis
      by (simp add: sendApiRequest_entered [OF False True] finallyBlock_fields
          settle_throws [OF assms] entered_fields)
  next
    case no: False
    then have "\<not> fst (prepareConversation False h ?s2)"
      by (simp add: prepareConversation_counted)
    then have "sendApiRequest prompt opts h randomId run s
        = snd (prepareConversation False h ?s2)"
      using False by (simp add: sendApiRequest_accepted Let_def)
    then show ?thesis
      by (simp add: prepareConversation_fields logged_fields)
  qed
qed

theorem failed_request_keeps_identifiers_witness:
  "completion (throwing [OnProgress ''Su'', StopCommand]) = Throws (Some abortError)
   \<and> conversationId (answered ''gpt-4'') = Some ''id-1''
   \<and> messageId (answered ''gpt-4'') = Some ''parent-1''
   \<and> conversationId (sendApiRequest ''more'' (freeText None) (demoHost ''gpt-4'') ''request-2''
        (throwing [OnProgress ''Su'', StopCommand]) (answered ''gpt-4'')) = Some ''id-1''
   \<and> messageId (sendApiRequest ''more'' (freeText None) (demoHost ''gpt-4'') ''request-2''
        (throwing [OnProgress ''Su'', StopCommand]) (answered ''gpt-4'')) = Some ''parent-1''"
proof -
  have h: "completion (throwing [OnProgress ''Su'', StopCommand]) = Throws (Some abortError)"
    by (simp add: throwing_def)
  have c: "conversationId (answered ''gpt-4'') = Some ''id-1''" by code_simp
  have m: "messageId (answered ''gpt-4'') = Some ''parent-1''" by code_simp
  from failed_request_keeps_identifiers [OF h, of "''more''" "freeText None"
      "demoHost ''gpt-4''" "''request-2''" "answered ''gpt-4''"]
  show ?thesis using h c m by simp
qed

subsection \<open>C10: stopping always publishes\<close>

text \<open>
  Claim C10: \<open>stopGenerating\<close> publishes, in every state and so also with no request
  active, \<open>showInProgress\<close> with \<open>inProgress\<close> false and a response marked done that
  carries the text accumulated so far; so does every \<open>clearSession\<close>, hence each of
  \<open>setMethod\<close>, \<open>setAuthType\<close>, \<open>setChromeExecutablePath\<close> and \<open>setProfilePath\<close>,
  and the constructor, which calls the four of them.
\<close>

theorem stop_and_clear_always_publish:
  "sentSince s (stopGenerating s) =
     [ShowInProgress False None,
      AddResponse (response s) True (Some (currentMessageId s)) (autoScroll s) (\<not> isCodexModel s)]
   \<and> sentSince s (clearSession s) = sentSince s (stopGenerating s)
   \<and> sentSince s (setMethod h s) = sentSince s (stopGenerating s)
   \<and> sentSince s (setAuthType h s) = sentSince s (stopGenerating s)
   \<and> sentSince s (setChromeExecutablePath h s) = sentSince s (stopGenerating s)
   \<and> sentSince s (setProfilePath h s) = sentSince s (stopGenerating s)
   \<and> sent (effects (construct h)) =
       concat (replicate 4
         [ShowInProgress False None,
          AddResponse [] True (Some []) (cfg_autoScroll h) (\<not> isCodexModel (fresh h))])"
proof -
  have stop: "sentSince s (stopGenerating s) =
     [ShowInProgress False None,
      AddResponse (response s) True (Some (currentMessageId s)) (autoScroll s) (\<not> isCodexModel s)]"
    by (rule sentSinceI [OF grows_stopGenerating stopGenerating_sent])
  have built: "sent (effects (construct h)) =
       concat (replicate 4
         [ShowInProgress False None,
          AddResponse [] True (Some []) (cfg_autoScroll h) (\<not> isCodexModel (fresh h))])"
    by (simp add: construct_def setAuthType_def setProxyServer_def setProfilePath_def
        setChromeExecutablePath_def setMethod_def clearSession_def Let_def logEvent_def
        emit_fields stopGenerating_sent stopGenerating_fields sent_append isCodexModel_def
        fresh_def numeral_eq_Suc)
  show ?thesis
    by (simp add: stop built clearSession_since setMethod_def setAuthType_def
        setChromeExecutablePath_def setProfilePath_def)
qed

theorem stop_and_clear_always_publish_witness:
  "\<not> inProgress (attached ''gpt-4'')
   \<and> sentSince (attached ''gpt-4'') (stopGenerating (attached ''gpt-4''))
       = [ShowInProgress False None, AddResponse [] True (Some []) True True]
   \<and> sentSince (attached ''gpt-4'') (clearSession (attached ''gpt-4''))
       = [ShowInProgress False None, AddResponse [] True (Some []) True True]"
proof -
  have a: "response (attached ''gpt-4'') = []" "currentMessageId (attached ''gpt-4'') = []"
    "autoScroll (attached ''gpt-4'')" "\<not> isCodexModel (attached ''gpt-4'')"
    by code_simp+
  from stop_and_clear_always_publish [of "attached ''gpt-4''" "demoHost ''gpt-4''"]
  show ?thesis using a attached_gpt4(1) by simp
qed

end
